theory Spec2Isabelle
  imports Complex_Main "HOL-Library.Sublist"
begin

section \<open>JavaScript strings and built-ins used by \<open>src/util.ts\<close>\<close>

text \<open>
  A JavaScript string is a sequence of UTF-16 code units; \<open>length\<close> counts code units.
  A code unit is written as its number, and \<open>js\<close> turns an ASCII literal into such a
  string.
\<close>

type_synonym jsstring = "nat list"

definition js :: "string \<Rightarrow> jsstring" where
  "js s = map of_char s"

text \<open>\<open>WhiteSpace\<close> and \<open>LineTerminator\<close> of ECMAScript: what \<open>trim\<close> and \<open>Number\<close> strip.\<close>

definition is_white_space :: "nat \<Rightarrow> bool" where
  "is_white_space c =
     (c = 0x9 \<or> c = 0xA \<or> c = 0xB \<or> c = 0xC \<or> c = 0xD \<or> c = 0x20 \<or> c = 0xA0 \<or>
      c = 0x1680 \<or> (0x2000 \<le> c \<and> c \<le> 0x200A) \<or> c = 0x2028 \<or> c = 0x2029 \<or>
      c = 0x202F \<or> c = 0x205F \<or> c = 0x3000 \<or> c = 0xFEFF)"

definition is_line_terminator :: "nat \<Rightarrow> bool" where
  "is_line_terminator c = (c = 0xA \<or> c = 0xD \<or> c = 0x2028 \<or> c = 0x2029)"

definition trim :: "jsstring \<Rightarrow> jsstring" where
  "trim s = rev (dropWhile is_white_space (rev (dropWhile is_white_space s)))"

definition is_digit :: "nat \<Rightarrow> bool" where
  "is_digit c = (0x30 \<le> c \<and> c \<le> 0x39)"

definition is_hex_digit :: "nat \<Rightarrow> bool" where
  "is_hex_digit c = (is_digit c \<or> (0x41 \<le> c \<and> c \<le> 0x46) \<or> (0x61 \<le> c \<and> c \<le> 0x66))"

text \<open>
  \<open>Number(s)\<close> on a string is \<open>StringToNumber\<close>: the trimmed text is empty (the number 0)
  or a \<open>StrNumericLiteral\<close>; anything else is \<open>NaN\<close>. The functions below recognise
  the grammar; the numeric value is never used by the program, only \<open>Number.isNaN\<close>.
\<close>

definition signed_integer :: "jsstring \<Rightarrow> bool" where
  "signed_integer s =
     (case s of
        [] \<Rightarrow> False
      | c # r \<Rightarrow>
          if c = 0x2B \<or> c = 0x2D then r \<noteq> [] \<and> list_all is_digit r
          else list_all is_digit s)"

definition exponent_part_opt :: "jsstring \<Rightarrow> bool" where
  "exponent_part_opt s =
     (case s of
        [] \<Rightarrow> True
      | c # r \<Rightarrow> (c = 0x65 \<or> c = 0x45) \<and> signed_integer r)"

definition str_unsigned_decimal_literal :: "jsstring \<Rightarrow> bool" where
  "str_unsigned_decimal_literal s =
     (if s = js ''Infinity'' then True
      else
        (let d1 = takeWhile is_digit s; r1 = dropWhile is_digit s in
         case r1 of
           [] \<Rightarrow> d1 \<noteq> []
         | c # r2 \<Rightarrow>
             if c = 0x2E
             then (d1 \<noteq> [] \<or> takeWhile is_digit r2 \<noteq> []) \<and>
                  exponent_part_opt (dropWhile is_digit r2)
             else d1 \<noteq> [] \<and> exponent_part_opt r1))"

definition str_decimal_literal :: "jsstring \<Rightarrow> bool" where
  "str_decimal_literal s =
     (case s of
        [] \<Rightarrow> False
      | c # r \<Rightarrow>
          if c = 0x2B \<or> c = 0x2D then str_unsigned_decimal_literal r
          else str_unsigned_decimal_literal s)"

definition non_decimal_integer_literal :: "jsstring \<Rightarrow> bool" where
  "non_decimal_integer_literal s =
     (case s of
        z # x # r \<Rightarrow>
          z = 0x30 \<and> r \<noteq> [] \<and>
          (if x = 0x62 \<or> x = 0x42 then list_all (\<lambda>c. c = 0x30 \<or> c = 0x31) r
           else if x = 0x6F \<or> x = 0x4F then list_all (\<lambda>c. 0x30 \<le> c \<and> c \<le> 0x37) r
           else if x = 0x78 \<or> x = 0x58 then list_all is_hex_digit r
           else False)
      | _ \<Rightarrow> False)"

definition number_is_nan :: "jsstring \<Rightarrow> bool" where
  "number_is_nan s =
     (let t = trim s in
      t \<noteq> [] \<and> \<not> str_decimal_literal t \<and> \<not> non_decimal_integer_literal t)"

text \<open>\<open>Array.prototype.join\<close> on strings.\<close>

fun join :: "jsstring \<Rightarrow> jsstring list \<Rightarrow> jsstring" where
  "join sep [] = []"
| "join sep [x] = x"
| "join sep (x # y # r) = x @ sep @ join sep (y # r)"

section \<open>Regular expressions of the module\<close>

text \<open>
  A matcher stands for one regular expression tried at one position: it gets the code
  unit before the position (if any) and the text from the position on, and returns the
  replacement text and the number of code units the match consumes.
  \<open>replace_global\<close> is \<open>String.prototype.replace\<close> with a global regular expression:
  matches are searched left to right from index 0, an empty match advances the
  position by one code unit, unmatched code units are copied.
\<close>

type_synonym matcher = "nat option \<Rightarrow> jsstring \<Rightarrow> (jsstring \<times> nat) option"

function replace_global :: "matcher \<Rightarrow> nat option \<Rightarrow> jsstring \<Rightarrow> jsstring" where
  "replace_global m prev [] = (case m prev [] of Some (rep, n) \<Rightarrow> rep | None \<Rightarrow> [])"
| "replace_global m prev (c # s) =
     (case m prev (c # s) of
        None \<Rightarrow> c # replace_global m (Some c) s
      | Some (rep, n) \<Rightarrow>
          if n = 0 then rep @ c # replace_global m (Some c) s
          else rep @ replace_global m (Some ((c # s) ! (min n (Suc (length s)) - 1)))
                       (drop n (c # s)))"
  by pat_completeness auto
termination
  by (relation "measure (\<lambda>(m, prev, s). length s)") auto

definition starts_with :: "jsstring \<Rightarrow> jsstring \<Rightarrow> bool" where
  "starts_with k s = (take (length k) s = k)"

definition strip_prefix :: "jsstring \<Rightarrow> jsstring \<Rightarrow> jsstring option" where
  "strip_prefix p s = (if starts_with p s then Some (drop (length p) s) else None)"

text \<open>
  \<open>/https?:\/\/t.co\/[a-zA-Z0-9\.-]*/g\<close>. The dot of \<open>t.co\<close> is unescaped: any code
  unit but a line terminator. After \<open>http\<close> only \<open>s\<close> or \<open>:\<close> can follow, so the
  optional \<open>s\<close> needs no backtracking, and the final star is greedy.
\<close>

definition is_url_char :: "nat \<Rightarrow> bool" where
  "is_url_char c =
     ((0x61 \<le> c \<and> c \<le> 0x7A) \<or> (0x41 \<le> c \<and> c \<le> 0x5A) \<or> is_digit c \<or> c = 0x2E \<or> c = 0x2D)"

definition tco_matcher :: matcher where
  "tco_matcher prev s =
     (case strip_prefix (js ''http'') s of
        None \<Rightarrow> None
      | Some r1 \<Rightarrow>
          (case strip_prefix (js ''://t'')
                  (case r1 of [] \<Rightarrow> r1 | c # r \<Rightarrow> if c = 0x73 then r else r1) of
             None \<Rightarrow> None
           | Some r2 \<Rightarrow>
               (case r2 of
                  [] \<Rightarrow> None
                | d # r3 \<Rightarrow>
                    if is_line_terminator d then None
                    else
                      (case strip_prefix (js ''co/'') r3 of
                         None \<Rightarrow> None
                       | Some r4 \<Rightarrow>
                           Some ([], length s - length (dropWhile is_url_char r4))))))"

text \<open>
  \<open>replaces_regex\<close> and \<open>aliases_regex\<close> are alternations of the escaped keys of a
  table, in \<open>Object.keys\<close> order: \<open>escape_regex\<close> makes every key match literally, and
  the first alternative that matches at a position wins. The pattern of an empty key
  list is the empty pattern, which matches the empty string. The replacement callback
  reads the table at the matched text; a missing property is \<open>undefined\<close>, which
  \<open>replace\<close> writes as the text \<open>undefined\<close>.
\<close>

definition alternatives :: "jsstring list \<Rightarrow> jsstring list" where
  "alternatives keys = (if keys = [] then [[]] else keys)"

definition table_value :: "(jsstring \<times> jsstring) list \<Rightarrow> jsstring \<Rightarrow> jsstring" where
  "table_value table k = (case map_of table k of Some v \<Rightarrow> v | None \<Rightarrow> js ''undefined'')"

definition replaces_matcher :: "(jsstring \<times> jsstring) list \<Rightarrow> matcher" where
  "replaces_matcher table prev s =
     (case find (\<lambda>k. starts_with k s) (alternatives (map fst table)) of
        None \<Rightarrow> None
      | Some k \<Rightarrow> Some (table_value table k, length k))"

text \<open>\<open>\w\<close> and \<open>\b\<close> of a regular expression without the \<open>u\<close> and \<open>i\<close> flags.\<close>

definition is_word_char :: "nat \<Rightarrow> bool" where
  "is_word_char c =
     ((0x61 \<le> c \<and> c \<le> 0x7A) \<or> (0x41 \<le> c \<and> c \<le> 0x5A) \<or> is_digit c \<or> c = 0x5F)"

definition word_boundary :: "nat option \<Rightarrow> nat option \<Rightarrow> bool" where
  "word_boundary a b =
     ((case a of None \<Rightarrow> False | Some c \<Rightarrow> is_word_char c) \<noteq>
      (case b of None \<Rightarrow> False | Some c \<Rightarrow> is_word_char c))"

fun first_unit :: "jsstring \<Rightarrow> nat option" where
  "first_unit [] = None"
| "first_unit (c # s) = Some c"

definition aliases_matcher :: "(jsstring \<times> jsstring) list \<Rightarrow> matcher" where
  "aliases_matcher table prev s =
     (if word_boundary prev (first_unit s)
      then
        (case find
                (\<lambda>k. starts_with k s \<and>
                     word_boundary (if k = [] then prev else Some (last k))
                       (first_unit (drop (length k) s)))
                (alternatives (map fst table)) of
           None \<Rightarrow> None
         | Some k \<Rightarrow> Some (table_value table k, length k))
      else None)"

text \<open>\<open>/(\w)'s/g\<close> with the replacement \<open>$1 is\<close>.\<close>

definition possessive_matcher :: matcher where
  "possessive_matcher prev s =
     (case s of
        c # a # b # r \<Rightarrow>
          if is_word_char c \<and> a = 0x27 \<and> b = 0x73 then Some (c # js '' is'', 3) else None
      | _ \<Rightarrow> None)"

section \<open>Segments and the token scan of \<open>analyse\<close>\<close>

text \<open>
  What \<open>Intl.Segmenter\<close> yields at word granularity: the text of a segment and whether
  it is word-like. \<open>segments[k]\<close> is \<open>undefined\<close> outside the array.
\<close>

record segment_data =
  segment :: jsstring
  isWordLike :: bool

definition segment_at :: "segment_data list \<Rightarrow> nat \<Rightarrow> segment_data option" where
  "segment_at segments k = (if k < length segments then Some (segments ! k) else None)"

text \<open>\<open>segments[k]?.segment === t\<close> and \<open>segments[k]?.isWordLike\<close>.\<close>

definition segment_is :: "segment_data list \<Rightarrow> nat \<Rightarrow> jsstring \<Rightarrow> bool" where
  "segment_is segments k t =
     (case segment_at segments k of None \<Rightarrow> False | Some x \<Rightarrow> segment x = t)"

definition word_like_at :: "segment_data list \<Rightarrow> nat \<Rightarrow> bool" where
  "word_like_at segments k =
     (case segment_at segments k of None \<Rightarrow> False | Some x \<Rightarrow> isWordLike x)"

definition tags :: "jsstring list" where
  "tags = [js ''@'', js ''#'', js ''$'']"

text \<open>
  \<open>Math.max(...terms.map((term) => term.length))\<close>. Of no term it is \<open>-Infinity\<close>;
  the inner loop \<open>for (j = max_term_length - 1; j > 0; j--)\<close> then does not run, as it
  does not from the natural number 0.
\<close>

definition max_term_length :: "jsstring list list \<Rightarrow> nat" where
  "max_term_length terms = foldr max (map length terms) 0"

text \<open>\<open>term.every((s, i) => s === potential[i])\<close>: a position past \<open>potential\<close> reads \<open>undefined\<close>.\<close>

fun every_equal :: "jsstring list \<Rightarrow> jsstring list \<Rightarrow> bool" where
  "every_equal [] potential = True"
| "every_equal (s # term) [] = False"
| "every_equal (s # term) (x # potential) = (s = x \<and> every_equal term potential)"

text \<open>The body of the inner loop at cursor \<open>i\<close> and window \<open>j\<close>: the constant \<open>match\<close>.\<close>

definition match_at ::
  "jsstring list list \<Rightarrow> segment_data list \<Rightarrow> nat \<Rightarrow> nat \<Rightarrow> jsstring list option" where
  "match_at terms segments i j =
     (let potential = map segment (take (j + 1) (drop i segments)) in
      find (\<lambda>term. every_equal term potential)
        (filter (\<lambda>term. length term = length potential) terms))"

text \<open>The inner loop from window \<open>j\<close> down to 1: the first match and its \<open>j\<close>.\<close>

fun find_term ::
  "jsstring list list \<Rightarrow> segment_data list \<Rightarrow> nat \<Rightarrow> nat \<Rightarrow> (jsstring list \<times> nat) option" where
  "find_term terms segments i 0 = None"
| "find_term terms segments i (Suc j) =
     (case match_at terms segments i (Suc j) of
        Some m \<Rightarrow> Some (m, Suc j)
      | None \<Rightarrow> find_term terms segments i j)"

text \<open>
  The \<open>while\<close> loop of the hyphen rule: it returns the cursor and the \<open>group\<close> it ends with.
\<close>

function hyphen_group ::
  "segment_data list \<Rightarrow> nat \<Rightarrow> jsstring list \<Rightarrow> nat \<times> jsstring list" where
  "hyphen_group segments i grp =
     (if segment_is segments (i + 1) (js ''-'') \<and> word_like_at segments (i + 2)
      then hyphen_group segments (i + 2) (grp @ [segment (segments ! (i + 2))])
      else (i, grp))"
  by pat_completeness auto
termination
  by (relation "measure (\<lambda>(segments, i, grp). length segments - i)")
     (auto simp: word_like_at_def segment_at_def split: if_splits)

declare hyphen_group.simps [simp del]

lemma hyphen_group_cursor: "hyphen_group segments i grp = (i', grp') \<Longrightarrow> i \<le> i'"
proof (induction segments i grp rule: hyphen_group.induct)
  case (1 segments i grp)
  show ?case
  proof (cases "segment_is segments (i + 1) (js ''-'') \<and> word_like_at segments (i + 2)")
    case True
    with "1.prems"
    have "hyphen_group segments (i + 2) (grp @ [segment (segments ! (i + 2))]) = (i', grp')"
      by (simp add: hyphen_group.simps [of segments i grp])
    with "1.IH" [OF True] show ?thesis by simp
  next
    case False
    with "1.prems" show ?thesis
      by (auto simp add: hyphen_group.simps [of segments i grp] split: if_splits)
  qed
qed

text \<open>
  The loop labelled \<open>outer\<close>, from cursor \<open>i\<close> on: the strings it pushes to \<open>words\<close>,
  in order. Every path ends in the \<open>i++\<close> of the \<open>for\<close> statement, also
  \<open>continue outer\<close> after \<open>i += j + 1\<close>.
\<close>

function outer :: "jsstring list list \<Rightarrow> segment_data list \<Rightarrow> nat \<Rightarrow> jsstring list" where
  "outer terms segments i =
     (if length segments \<le> i then []
      else
        (case find_term terms segments i (max_term_length terms - 1) of
           Some (m, j) \<Rightarrow> join [] m # outer terms segments (i + (j + 1) + 1)
         | None \<Rightarrow>
             if segment (segments ! i) \<in> set tags \<and> word_like_at segments (i + 1) \<and>
                number_is_nan (segment (segments ! (i + 1)))
             then (segment (segments ! i) @ segment (segments ! (i + 1))) #
                  outer terms segments (i + 1 + 1)
             else if isWordLike (segments ! i) \<and> segment_is segments (i + 1) (js ''-'')
             then
               (case hyphen_group segments i [segment (segments ! i)] of
                  (i', grp) \<Rightarrow> join (js ''-'') grp # outer terms segments (i' + 1))
             else if isWordLike (segments ! i) \<and> number_is_nan (segment (segments ! i))
             then segment (segments ! i) # outer terms segments (i + 1)
             else outer terms segments (i + 1)))"
  by pat_completeness auto
termination
  by (relation "measure (\<lambda>(terms, segments, i). length segments - i)")
     (auto dest!: hyphen_group_cursor [OF sym])

declare outer.simps [simp del]

section \<open>Character classes of the exported patterns\<close>

text \<open>
  \<open>HAN_REGEX\<close> and \<open>HIRAGANA_REGEX\<close> carry the \<open>u\<close> flag: they read the string as
  code points, a lead surrogate followed by a trail surrogate being one code point.
\<close>

fun code_points :: "jsstring \<Rightarrow> nat list" where
  "code_points [] = []"
| "code_points [c] = [c]"
| "code_points (h # l # s) =
     (if 0xD800 \<le> h \<and> h \<le> 0xDBFF \<and> 0xDC00 \<le> l \<and> l \<le> 0xDFFF
      then (0x10000 + (h - 0xD800) * 0x400 + (l - 0xDC00)) # code_points s
      else h # code_points (l # s))"

text \<open>
  The code points with the property \<open>Unified_Ideograph\<close> in Unicode 15.1
  (PropList.txt): the table of the example environment below. The program reads the
  table of the runtime it runs on.
\<close>

definition unified_ideograph_15_1 :: "nat \<Rightarrow> bool" where
  "unified_ideograph_15_1 c =
     ((0x3400 \<le> c \<and> c \<le> 0x4DBF) \<or> (0x4E00 \<le> c \<and> c \<le> 0x9FFF) \<or>
      (0xFA0E \<le> c \<and> c \<le> 0xFA0F) \<or> c = 0xFA11 \<or> (0xFA13 \<le> c \<and> c \<le> 0xFA14) \<or>
      c = 0xFA1F \<or> c = 0xFA21 \<or> (0xFA23 \<le> c \<and> c \<le> 0xFA24) \<or>
      (0xFA27 \<le> c \<and> c \<le> 0xFA29) \<or> (0x20000 \<le> c \<and> c \<le> 0x2A6DF) \<or>
      (0x2A700 \<le> c \<and> c \<le> 0x2B739) \<or> (0x2B740 \<le> c \<and> c \<le> 0x2B81D) \<or>
      (0x2B820 \<le> c \<and> c \<le> 0x2CEA1) \<or> (0x2CEB0 \<le> c \<and> c \<le> 0x2EBE0) \<or>
      (0x2EBF0 \<le> c \<and> c \<le> 0x2EE5D) \<or> (0x30000 \<le> c \<and> c \<le> 0x3134A) \<or>
      (0x31350 \<le> c \<and> c \<le> 0x323AF))"

definition hiragana_class :: "nat \<Rightarrow> bool" where
  "hiragana_class c =
     ((0x3000 \<le> c \<and> c \<le> 0x303F) \<or> (0x3040 \<le> c \<and> c \<le> 0x309F) \<or>
      (0x30A0 \<le> c \<and> c \<le> 0x30FF) \<or> (0xFF00 \<le> c \<and> c \<le> 0xFFEF) \<or>
      (0x4E00 \<le> c \<and> c \<le> 0x9FAF) \<or> (0x2605 \<le> c \<and> c \<le> 0x2606) \<or>
      (0x2190 \<le> c \<and> c \<le> 0x2195) \<or> c = 0x203B)"

definition match_HIRAGANA_REGEX :: "jsstring \<Rightarrow> bool" where
  "match_HIRAGANA_REGEX w = list_ex hiragana_class (code_points w)"

text \<open>\<open>ALL_ASCII = /^[\x00-\x7F]+$/\<close>: no flag, so the anchors are the ends of the string.\<close>

definition match_ALL_ASCII :: "jsstring \<Rightarrow> bool" where
  "match_ALL_ASCII w = (w \<noteq> [] \<and> list_all (\<lambda>c. c \<le> 0x7F) w)"

text \<open>\<open>FIAT_REGEX\<close>: the alternation of the escaped signs of \<open>cmc.fiat\<close>, replaced by nothing.\<close>

definition fiat_matcher :: "jsstring list \<Rightarrow> matcher" where
  "fiat_matcher signs prev s =
     (case find (\<lambda>k. starts_with k s) (alternatives signs) of
        None \<Rightarrow> None
      | Some k \<Rightarrow> Some ([], length k))"

text \<open>\<open>.replace(/[kmbt,-]/g, "")\<close> and \<open>.replace(/[^a-z]/g, "")\<close>.\<close>

definition remove_kmbt :: "jsstring \<Rightarrow> jsstring" where
  "remove_kmbt w =
     filter (\<lambda>c. \<not> (c = 0x6B \<or> c = 0x6D \<or> c = 0x62 \<or> c = 0x74 \<or> c = 0x2C \<or> c = 0x2D)) w"

definition keep_a_to_z :: "jsstring \<Rightarrow> jsstring" where
  "keep_a_to_z w = filter (\<lambda>c. 0x61 \<le> c \<and> c \<le> 0x7A) w"

section \<open>Numbers\<close>

text \<open>
  A JavaScript number is an IEEE 754 double: a finite value (kept as the rational it
  is), an infinity or \<open>NaN\<close>. \<open>to_double\<close> rounds a rational to the nearest double,
  ties to the even significand: it is what reading a number literal does and what
  every arithmetic operation does to its exact result. Results at or above
  \<open>2 ^ 1024\<close> are infinite; below \<open>2 ^ -1022\<close> the spacing stays \<open>2 ^ -1074\<close>.
\<close>

datatype js_number = Finite rat | PosInfinity | NegInfinity | NaN

function bit_length :: "nat \<Rightarrow> nat" where
  "bit_length n = (if n = 0 then 0 else Suc (bit_length (n div 2)))"
  by pat_completeness auto
termination
  by (relation "measure id") auto

declare bit_length.simps [simp del]

definition pow2 :: "int \<Rightarrow> rat" where
  "pow2 k = (if 0 \<le> k then 2 ^ nat k else 1 / 2 ^ nat (- k))"

text \<open>For \<open>0 < x\<close>, the \<open>k\<close> with \<open>2 ^ k \<le> x < 2 ^ (k + 1)\<close>.\<close>

definition binary_exponent :: "rat \<Rightarrow> int" where
  "binary_exponent x =
     (if 1 \<le> x then int (bit_length (nat \<lfloor>x\<rfloor>)) - 1
      else - int (bit_length (nat (\<lceil>1 / x\<rceil> - 1))))"

definition round_half_even :: "rat \<Rightarrow> int" where
  "round_half_even x =
     (let f = \<lfloor>x\<rfloor>; r = x - of_int f in
      if r < 1 / 2 then f else if 1 / 2 < r then f + 1 else if even f then f else f + 1)"

definition to_double :: "rat \<Rightarrow> js_number" where
  "to_double x =
     (if x = 0 then Finite 0
      else
        (let q = pow2 (max (binary_exponent \<bar>x\<bar>) (- 1022) - 52);
             y = of_int (round_half_even (\<bar>x\<bar> / q)) * q
         in if pow2 1024 \<le> y then (if 0 < x then PosInfinity else NegInfinity)
            else Finite (if 0 < x then y else - y)))"

text \<open>
  \<open>words.length * x\<close>, \<open>Math.floor(x)\<close> and \<open>n > x\<close> for an array length \<open>n\<close> (an
  integer below \<open>2 ^ 32\<close>, a double as it is). The floor of a double is a double.
\<close>

fun length_times :: "nat \<Rightarrow> js_number \<Rightarrow> js_number" where
  "length_times n (Finite x) = to_double (of_nat n * x)"
| "length_times n PosInfinity = (if n = 0 then NaN else PosInfinity)"
| "length_times n NegInfinity = (if n = 0 then NaN else NegInfinity)"
| "length_times n NaN = NaN"

fun Math_floor :: "js_number \<Rightarrow> js_number" where
  "Math_floor (Finite x) = Finite (of_int \<lfloor>x\<rfloor>)"
| "Math_floor PosInfinity = PosInfinity"
| "Math_floor NegInfinity = NegInfinity"
| "Math_floor NaN = NaN"

fun length_greater :: "nat \<Rightarrow> js_number \<Rightarrow> bool" where
  "length_greater n (Finite x) = (x < of_nat n)"
| "length_greater n PosInfinity = False"
| "length_greater n NegInfinity = True"
| "length_greater n NaN = False"

section \<open>Configuration and collaborators\<close>

text \<open>
  What the module reads when it is loaded and what it calls but does not define:
  \<open>config.json\<close> (tables as association lists in \<open>Object.keys\<close> order), the signs
  of \<open>cmc.fiat\<close>, the text of the file at \<open>config.ignore_list_path\<close>, the word
  segmenter, the OpenCC converter, \<open>pluralize\<close>, \<open>toLowerCase\<close> on strings that
  are not plain ASCII, and the runtime's table of the Unicode property
  \<open>Unified_Ideograph\<close>. \<open>config_hanzi_percentage\<close> is the exact value of the number
  literal written in \<open>config.json\<close>; the program works with the double it is read as.
\<close>

record env =
  config_replaces :: "(jsstring \<times> jsstring) list"
  config_aliases :: "(jsstring \<times> jsstring) list"
  config_terms :: "jsstring list"
  config_hanzi_percentage :: rat
  config_ignore_all_hanzi :: bool
  config_ignore_all_hiragana :: bool
  ignore_list_file :: jsstring
  cmc_fiat_signs :: "jsstring list"
  segmenter :: "jsstring \<Rightarrow> segment_data list"
  traditional_to_simplfiied :: "jsstring \<Rightarrow> jsstring"
  pluralize :: "jsstring \<Rightarrow> int \<Rightarrow> jsstring"
  unicode_toLowerCase :: "jsstring \<Rightarrow> jsstring"
  unicode_unified_ideograph :: "nat \<Rightarrow> bool"

text \<open>
  \<open>String.prototype.toLowerCase\<close>: on a string of ASCII code units it maps \<open>A\<close> to
  \<open>Z\<close> onto \<open>a\<close> to \<open>z\<close>; otherwise it follows the Unicode case mappings.
\<close>

definition to_lower_ascii :: "nat \<Rightarrow> nat" where
  "to_lower_ascii c = (if 0x41 \<le> c \<and> c \<le> 0x5A then c + 0x20 else c)"

definition toLowerCase :: "env \<Rightarrow> jsstring \<Rightarrow> jsstring" where
  "toLowerCase e s =
     (if list_all (\<lambda>c. c \<le> 0x7F) s then map to_lower_ascii s else unicode_toLowerCase e s)"

text \<open>
  \<open>w.match(HAN_REGEX)\<close> is not \<open>null\<close>: some code point is in the class
  \<open>[\p{Unified_Ideograph}\u3006\u3007]\<close> (the variation selector after it is optional).
  No version of Unicode gives the property to a code point of the Basic Latin block,
  so the runtime's table is asked above U+007F only.
\<close>

definition han_class :: "env \<Rightarrow> nat \<Rightarrow> bool" where
  "han_class e c = ((0x7F < c \<and> unicode_unified_ideograph e c) \<or> c = 0x3006 \<or> c = 0x3007)"

definition match_HAN_REGEX :: "env \<Rightarrow> jsstring \<Rightarrow> bool" where
  "match_HAN_REGEX e w = list_ex (han_class e) (code_points w)"

section \<open>The ignore list\<close>

text \<open>\<open>split("\n")\<close>: the empty string splits into one empty string.\<close>

fun split_newline :: "jsstring \<Rightarrow> jsstring list" where
  "split_newline [] = [[]]"
| "split_newline (c # s) =
     (if c = 0xA then [] # split_newline s
      else (case split_newline s of [] \<Rightarrow> [[c]] | x # r \<Rightarrow> (c # x) # r))"

text \<open>The six strings \<open>flatMap\<close> makes of one word; \<open>word.slice(0, -1)\<close> drops the last code unit.\<close>

definition word_forms :: "env \<Rightarrow> jsstring \<Rightarrow> jsstring list" where
  "word_forms e word =
     [word, pluralize e word 0, word @ js ''ing'', butlast word @ js ''ing'',
      word @ js ''d'', word @ js ''ed'']"

definition ignore_list :: "env \<Rightarrow> jsstring set" where
  "ignore_list e =
     set (concat (map (word_forms e) (map trim (split_newline (ignore_list_file e)))))"

section \<open>The function \<open>analyse\<close>\<close>

text \<open>The constants \<open>normalized\<close>, \<open>terms\<close> and \<open>words\<close> of \<open>analyse\<close>.\<close>

definition analyse_normalized :: "env \<Rightarrow> jsstring \<Rightarrow> jsstring" where
  "analyse_normalized e raw =
     traditional_to_simplfiied e
       (replace_global possessive_matcher None
         (replace_global (aliases_matcher (config_aliases e)) None
           (replace_global (replaces_matcher (config_replaces e)) None
             (replace_global tco_matcher None (toLowerCase e raw)))))"

definition analyse_terms :: "env \<Rightarrow> jsstring list list" where
  "analyse_terms e =
     map (\<lambda>term. map segment (segmenter e (toLowerCase e term))) (config_terms e)"

definition analyse_words :: "env \<Rightarrow> jsstring \<Rightarrow> jsstring list" where
  "analyse_words e raw = outer (analyse_terms e) (segmenter e (analyse_normalized e raw)) 0"

text \<open>
  \<open>is_chinese\<close>: \<open>han > Math.floor(n * config.hanzi_percentage)\<close> for the number
  \<open>han\<close> of words that match \<open>HAN_REGEX\<close> and the number \<open>n\<close> of words, in double
  arithmetic.
\<close>

definition hanzi_exceeds :: "env \<Rightarrow> nat \<Rightarrow> nat \<Rightarrow> bool" where
  "hanzi_exceeds e han n =
     length_greater han (Math_floor (length_times n (to_double (config_hanzi_percentage e))))"

definition analyse_is_chinese :: "env \<Rightarrow> jsstring list \<Rightarrow> bool" where
  "analyse_is_chinese e ws =
     hanzi_exceeds e (length (filter (match_HAN_REGEX e) ws)) (length ws)"

text \<open>
  \<open>w in config.aliases ? config.aliases[w] : w\<close>. The table is a plain object parsed
  from JSON: \<open>in\<close> and the property read also find the properties it inherits from
  \<open>Object.prototype\<close>, whose values are functions (and, for \<open>__proto__\<close>, an object),
  not strings.
\<close>

datatype jsvalue = Str jsstring | Inherited jsstring

definition object_prototype_properties :: "jsstring list" where
  "object_prototype_properties =
     [js ''constructor'', js ''__defineGetter__'', js ''__defineSetter__'',
      js ''hasOwnProperty'', js ''__lookupGetter__'', js ''__lookupSetter__'',
      js ''isPrototypeOf'', js ''propertyIsEnumerable'', js ''toString'', js ''valueOf'',
      js ''__proto__'', js ''toLocaleString'']"

definition alias_of :: "(jsstring \<times> jsstring) list \<Rightarrow> jsstring \<Rightarrow> jsvalue" where
  "alias_of table w =
     (case map_of table w of
        Some v \<Rightarrow> Str v
      | None \<Rightarrow> if w \<in> set object_prototype_properties then Inherited w else Str w)"

text \<open>\<open>[...new Set(xs)]\<close>: the values in the order of their first occurrence.\<close>

fun set_values :: "'a list \<Rightarrow> 'a list" where
  "set_values [] = []"
| "set_values (x # xs) = x # set_values (filter (\<lambda>y. y \<noteq> x) xs)"

definition analyse_unique_words :: "env \<Rightarrow> jsstring list \<Rightarrow> jsvalue list" where
  "analyse_unique_words e ws = set_values (map (alias_of (config_aliases e)) ws)"

text \<open>
  The predicate of the final \<open>filter\<close> on a string. \<open>Math.floor(w.length * 0.6)\<close> is
  \<open>3 * w.length div 5\<close>: the double nearest to 0.6 is below it by less than half a unit
  in the last place, so the rounded product is the integer when \<open>w.length\<close> is a
  multiple of 5 and is far from an integer otherwise.
\<close>

definition keep_word :: "env \<Rightarrow> jsstring \<Rightarrow> bool" where
  "keep_word e w =
     ((if config_ignore_all_hanzi e then \<not> match_HAN_REGEX e w else True) \<and>
      (if config_ignore_all_hiragana e then \<not> match_HIRAGANA_REGEX w else True) \<and>
      number_is_nan (remove_kmbt (replace_global (fiat_matcher (cmc_fiat_signs e)) None w)) \<and>
      (if \<not> match_HAN_REGEX e w \<and> \<not> match_HIRAGANA_REGEX w then 2 < length w else True) \<and>
      match_ALL_ASCII w \<and>
      (3 * length w) div 5 < length (keep_a_to_z w) \<and>
      w \<notin> ignore_list e)"

text \<open>
  On a value that is not a string the predicate throws: whichever of \<open>w.match\<close> and
  \<open>w.replace\<close> it reaches first is \<open>undefined\<close>, and calling it is a \<open>TypeError\<close>.
\<close>

datatype js_error = TypeError

fun filter_predicate :: "env \<Rightarrow> jsvalue \<Rightarrow> js_error + bool" where
  "filter_predicate e (Str w) = Inr (keep_word e w)"
| "filter_predicate e (Inherited p) = Inl TypeError"

text \<open>\<open>Array.prototype.filter\<close> with a callback that may throw.\<close>

fun array_filter :: "('a \<Rightarrow> js_error + bool) \<Rightarrow> 'a list \<Rightarrow> js_error + 'a list" where
  "array_filter f [] = Inr []"
| "array_filter f (x # xs) =
     (case f x of
        Inl err \<Rightarrow> Inl err
      | Inr b \<Rightarrow>
          (case array_filter f xs of
             Inl err \<Rightarrow> Inl err
           | Inr r \<Rightarrow> Inr (if b then x # r else r)))"

text \<open>
  The options argument may be absent (the default is \<open>{ no_filter: false }\<close>) and so
  may its \<open>no_filter\<close>; the result is the object \<open>{ is_chinese, words }\<close>.
\<close>

record options =
  no_filter :: "bool option"

record result =
  is_chinese :: bool
  words :: "jsvalue list"

definition no_filter_given :: "options option \<Rightarrow> bool" where
  "no_filter_given opts = (case opts of None \<Rightarrow> False | Some opt \<Rightarrow> no_filter opt = Some True)"

definition analyse :: "env \<Rightarrow> jsstring \<Rightarrow> options option \<Rightarrow> js_error + result" where
  "analyse e raw opts =
     (let ws = analyse_words e raw;
          chinese = analyse_is_chinese e ws;
          unique_words = analyse_unique_words e ws
      in
        if no_filter_given opts
        then Inr \<lparr>is_chinese = chinese, words = unique_words\<rparr>
        else
          (case array_filter (filter_predicate e) unique_words of
             Inl err \<Rightarrow> Inl err
           | Inr kept \<Rightarrow> Inr \<lparr>is_chinese = chinese, words = kept\<rparr>))"

section \<open>An environment for the scenarios\<close>

text \<open>
  The configuration of scenario A of the specification, with collaborators that are
  the real ones on the inputs used below: the segmentations are those of
  \<open>Intl.Segmenter\<close> at word granularity, the converter leaves text without traditional
  characters as it is, \<open>pluralize\<close> appends \<open>s\<close> to the words used here, and the
  runtime has the ideographs of Unicode 15.1.
\<close>

definition word_like :: "jsstring \<Rightarrow> segment_data" where
  "word_like t = \<lparr>segment = t, isWordLike = True\<rparr>"

definition not_word_like :: "jsstring \<Rightarrow> segment_data" where
  "not_word_like t = \<lparr>segment = t, isWordLike = False\<rparr>"

definition example_segmentations :: "(jsstring \<times> segment_data list) list" where
  "example_segmentations =
     [(js ''stop loss'',
       [word_like (js ''stop''), not_word_like (js '' ''), word_like (js ''loss'')]),
      (js ''bitcoin stop loss now'',
       [word_like (js ''bitcoin''), not_word_like (js '' ''), word_like (js ''stop''),
        not_word_like (js '' ''), word_like (js ''loss''), not_word_like (js '' ''),
        word_like (js ''now'')]),
      (js ''#btc to the moon'',
       [not_word_like (js ''#''), word_like (js ''btc''), not_word_like (js '' ''),
        word_like (js ''to''), not_word_like (js '' ''), word_like (js ''the''),
        not_word_like (js '' ''), word_like (js ''moon'')]),
      (js ''constructor'', [word_like (js ''constructor'')]),
      (js ''#ctor'', [not_word_like (js ''#''), word_like (js ''ctor'')]),
      (js ''stop loss'' @ [0x5E01],
       [word_like (js ''stop''), not_word_like (js '' ''), word_like (js ''loss''),
        word_like [0x5E01]])]"

definition example_segmenter :: "jsstring \<Rightarrow> segment_data list" where
  "example_segmenter s = (case map_of example_segmentations s of Some r \<Rightarrow> r | None \<Rightarrow> [])"

definition example_env :: env where
  "example_env =
     \<lparr>config_replaces = [(js ''&amp;'', js ''&'')],
      config_aliases = [(js ''btc'', js ''bitcoin'')],
      config_terms = [js ''stop loss''],
      config_hanzi_percentage = 1 / 2,
      config_ignore_all_hanzi = False,
      config_ignore_all_hiragana = False,
      ignore_list_file = js ''run'',
      cmc_fiat_signs = [js ''$''],
      segmenter = example_segmenter,
      traditional_to_simplfiied = (\<lambda>s. s),
      pluralize = (\<lambda>word count. if count = 1 then word else word @ js ''s''),
      unicode_toLowerCase = (\<lambda>s. s),
      unicode_unified_ideograph = unified_ideograph_15_1\<rparr>"

text \<open>
  An alternating chain of literal hyphens and word-like segments, as it follows the
  first word of a compound.
\<close>

definition hyphen_chain :: "jsstring list \<Rightarrow> segment_data list" where
  "hyphen_chain ws = concat (map (\<lambda>w. [not_word_like (js ''-''), word_like w]) ws)"

section \<open>The state of the module between calls\<close>

text \<open>
  What a call of \<open>analyse\<close> can leave behind for the next one: the \<open>lastIndex\<close> of
  the five module-level regular expressions with the \<open>g\<close> flag. (The other patterns are
  literals, created anew by each evaluation, or have no \<open>g\<close> flag; the ignore set and
  the configuration are never written.) \<open>String.prototype.match\<close> and
  \<open>String.prototype.replace\<close> with a global regular expression first set its
  \<open>lastIndex\<close> to 0, then search from \<open>lastIndex\<close>, and the search that fails at the
  end sets it to 0 again.
\<close>

datatype regexp_name = Replaces_regex | Aliases_regex | Han_regex | Hiragana_regex | Fiat_regex

type_synonym regexps = "regexp_name \<Rightarrow> nat"

definition match_global ::
  "regexp_name \<Rightarrow> (jsstring \<Rightarrow> bool) \<Rightarrow> jsstring \<Rightarrow> regexps \<Rightarrow> bool \<times> regexps" where
  "match_global rx found w st =
     (let st1 = st(rx := 0) in (found (drop (st1 rx) w), st1(rx := 0)))"

definition replace_from :: "matcher \<Rightarrow> nat \<Rightarrow> jsstring \<Rightarrow> jsstring" where
  "replace_from m k s =
     (if length s < k then s
      else take k s @ replace_global m (if k = 0 then None else Some (s ! (k - 1))) (drop k s))"

definition replace_with ::
  "regexp_name \<Rightarrow> matcher \<Rightarrow> jsstring \<Rightarrow> regexps \<Rightarrow> jsstring \<times> regexps" where
  "replace_with rx m s st =
     (let st1 = st(rx := 0) in (replace_from m (st1 rx) s, st1(rx := 0)))"

text \<open>\<open>analyse\<close> with the state passed through, statement by statement.\<close>

definition normalized_st :: "env \<Rightarrow> jsstring \<Rightarrow> regexps \<Rightarrow> jsstring \<times> regexps" where
  "normalized_st e raw st =
     (case replace_with Replaces_regex (replaces_matcher (config_replaces e))
             (replace_global tco_matcher None (toLowerCase e raw)) st of
        (s1, st1) \<Rightarrow>
          (case replace_with Aliases_regex (aliases_matcher (config_aliases e)) s1 st1 of
             (s2, st2) \<Rightarrow>
               (traditional_to_simplfiied e (replace_global possessive_matcher None s2), st2)))"

fun count_han_st :: "env \<Rightarrow> jsstring list \<Rightarrow> regexps \<Rightarrow> nat \<times> regexps" where
  "count_han_st e [] st = (0, st)"
| "count_han_st e (x # xs) st =
     (case match_global Han_regex (match_HAN_REGEX e) x st of
        (b, st1) \<Rightarrow>
          (case count_han_st e xs st1 of (n, st2) \<Rightarrow> (if b then Suc n else n, st2)))"

fun filter_predicate_st :: "env \<Rightarrow> jsvalue \<Rightarrow> regexps \<Rightarrow> (js_error + bool) \<times> regexps" where
  "filter_predicate_st e (Inherited p) st = (Inl TypeError, st)"
| "filter_predicate_st e (Str w) st =
     (case (if config_ignore_all_hanzi e
            then (case match_global Han_regex (match_HAN_REGEX e) w st of
                    (b, s) \<Rightarrow> (\<not> b, s))
            else (True, st)) of
        (c1, st1) \<Rightarrow>
          if \<not> c1 then (Inr False, st1)
          else
            (case (if config_ignore_all_hiragana e
                   then (case match_global Hiragana_regex match_HIRAGANA_REGEX w st1 of
                           (b, s) \<Rightarrow> (\<not> b, s))
                   else (True, st1)) of
               (c2, st2) \<Rightarrow>
                 if \<not> c2 then (Inr False, st2)
                 else
                   (case replace_with Fiat_regex (fiat_matcher (cmc_fiat_signs e)) w st2 of
                      (stripped, st3) \<Rightarrow>
                        if \<not> number_is_nan (remove_kmbt stripped) then (Inr False, st3)
                        else
                          (case match_global Han_regex (match_HAN_REGEX e) w st3 of
                             (han, st4) \<Rightarrow>
                               (case (if \<not> han
                                      then (case match_global Hiragana_regex
                                                   match_HIRAGANA_REGEX w st4 of
                                              (kana, s) \<Rightarrow>
                                                (if \<not> kana then 2 < length w else True, s))
                                      else (True, st4)) of
                                  (c4, st5) \<Rightarrow>
                                    (Inr (c4 \<and> match_ALL_ASCII w \<and>
                                          (3 * length w) div 5 < length (keep_a_to_z w) \<and>
                                          w \<notin> ignore_list e), st5))))))"

fun array_filter_st ::
  "('a \<Rightarrow> regexps \<Rightarrow> (js_error + bool) \<times> regexps) \<Rightarrow> 'a list \<Rightarrow> regexps \<Rightarrow>
     (js_error + 'a list) \<times> regexps" where
  "array_filter_st f [] st = (Inr [], st)"
| "array_filter_st f (x # xs) st =
     (case f x st of
        (Inl err, st1) \<Rightarrow> (Inl err, st1)
      | (Inr b, st1) \<Rightarrow>
          (case array_filter_st f xs st1 of
             (Inl err, st2) \<Rightarrow> (Inl err, st2)
           | (Inr r, st2) \<Rightarrow> (Inr (if b then x # r else r), st2)))"

definition analyse_st ::
  "env \<Rightarrow> jsstring \<Rightarrow> options option \<Rightarrow> regexps \<Rightarrow> (js_error + result) \<times> regexps" where
  "analyse_st e raw opts st =
     (case normalized_st e raw st of
        (normalized, st1) \<Rightarrow>
          (let ws = outer (analyse_terms e) (segmenter e normalized) 0 in
           case count_han_st e ws st1 of
             (han, st2) \<Rightarrow>
               (let chinese = hanzi_exceeds e han (length ws);
                    unique_words = analyse_unique_words e ws
                in
                  if no_filter_given opts
                  then (Inr \<lparr>is_chinese = chinese, words = unique_words\<rparr>, st2)
                  else
                    (case array_filter_st (filter_predicate_st e) unique_words st2 of
                       (Inl err, st3) \<Rightarrow> (Inl err, st3)
                     | (Inr kept, st3) \<Rightarrow>
                         (Inr \<lparr>is_chinese = chinese, words = kept\<rparr>, st3)))))"

section \<open>The language classifier\<close>

lemma floor_rat_numeral:
  "\<lfloor>(numeral a :: rat) / numeral b\<rfloor> = numeral a div numeral b"
  using floor_divide_of_int_eq [of "numeral a" "numeral b", where ?'a = rat] by simp

lemma ceiling_rat_numeral:
  "\<lceil>(numeral a :: rat) / numeral b\<rceil> = - ((- numeral a) div numeral b)"
  using floor_divide_of_int_eq [of "- numeral a" "numeral b", where ?'a = rat]
  by (simp add: ceiling_def)

lemmas double_eval = to_double_def binary_exponent_def pow2_def round_half_even_def
  bit_length.simps Let_def floor_rat_numeral ceiling_rat_numeral

text \<open>
  The rounding at work: the literal 0.6 is read as a double below 0.6, five times it
  rounds to 3, and three ideograph words of five are not more than 3; the literal
  0.58 is read as a double below 0.58, fifty times it rounds to a double below 29,
  and twenty-nine ideograph words of fifty are more than 28.
\<close>

lemma to_double_examples:
  "to_double (1 / 2) = Finite (1 / 2)"
  "to_double 2 = Finite 2"
  "to_double (3 / 5) = Finite (5404319552844595 / 9007199254740992)"
  "to_double (5 * (5404319552844595 / 9007199254740992)) = Finite 3"
  "to_double (29 / 50) = Finite (5224175567749775 / 9007199254740992)"
  "to_double (50 * (5224175567749775 / 9007199254740992)) =
     Finite (8162774324609023 / 281474976710656)"
  by (simp_all add: double_eval)

lemma threshold_examples:
  "\<not> length_greater 2 (Math_floor (length_times 4 (to_double (1 / 2))))"
  "length_greater 3 (Math_floor (length_times 4 (to_double (1 / 2))))"
  "\<not> length_greater 3 (Math_floor (length_times 5 (to_double (3 / 5))))"
  "length_greater 29 (Math_floor (length_times 50 (to_double (29 / 50))))"
  by (simp_all add: double_eval)

lemma hanzi_exceeds_examples:
  "config_hanzi_percentage e = 3 / 5 \<Longrightarrow> \<not> hanzi_exceeds e 3 5"
  "config_hanzi_percentage e = 29 / 50 \<Longrightarrow> hanzi_exceeds e 29 50"
  unfolding hanzi_exceeds_def by (simp_all only: threshold_examples not_False_eq_True)

lemma pow2_pos: "0 < pow2 k"
  by (simp add: pow2_def)

lemma round_half_even_nonneg: "0 \<le> x \<Longrightarrow> 0 \<le> round_half_even x"
  by (auto simp: round_half_even_def Let_def)

lemma to_double_nonneg:
  assumes "0 \<le> x"
  shows "to_double x = PosInfinity \<or> (\<exists>y. 0 \<le> y \<and> to_double x = Finite y)"
proof (cases "x = 0")
  case True
  then show ?thesis by (simp add: to_double_def)
next
  case False
  with assms have pos: "0 < x" by simp
  let ?q = "pow2 (max (binary_exponent \<bar>x\<bar>) (- 1022) - 52)"
  let ?y = "of_int (round_half_even (\<bar>x\<bar> / ?q)) * ?q"
  have "0 \<le> \<bar>x\<bar> / ?q" using pow2_pos [of "max (binary_exponent \<bar>x\<bar>) (- 1022) - 52"] by simp
  then have "0 \<le> round_half_even (\<bar>x\<bar> / ?q)" by (rule round_half_even_nonneg)
  then have "0 \<le> ?y"
    using pow2_pos [of "max (binary_exponent \<bar>x\<bar>) (- 1022) - 52"] by simp
  then show ?thesis using pos False by (auto simp: to_double_def Let_def)
qed

lemma hanzi_exceeds_none:
  assumes "0 \<le> config_hanzi_percentage e"
  shows "\<not> hanzi_exceeds e 0 n"
proof -
  from to_double_nonneg [OF assms]
  consider "to_double (config_hanzi_percentage e) = PosInfinity"
    | y where "0 \<le> y" "to_double (config_hanzi_percentage e) = Finite y"
    by blast
  then show ?thesis
  proof cases
    case 1
    then show ?thesis by (simp add: hanzi_exceeds_def)
  next
    case 2
    then have "0 \<le> of_nat n * y" by simp
    from to_double_nonneg [OF this] 2 show ?thesis
      by (auto simp: hanzi_exceeds_def)
  qed
qed






section \<open>The token scan\<close>

lemma segment_at_drop: "segment_at (drop n segments) k = segment_at segments (n + k)"
  by (auto simp: segment_at_def)

lemma segment_is_drop: "segment_is (drop n segments) k t = segment_is segments (n + k) t"
  by (simp add: segment_is_def segment_at_drop)

lemma word_like_at_drop: "word_like_at (drop n segments) k = word_like_at segments (n + k)"
  by (simp add: word_like_at_def segment_at_drop)

lemma segment_at_Some: "segment_at segments k = Some x \<Longrightarrow> k < length segments \<and> segments ! k = x"
  by (auto simp: segment_at_def split: if_splits)

lemma hyphen_group_chain:
  assumes "drop (Suc i) segments = hyphen_chain ws @ rest"
    and "\<not> (segment_is rest 0 (js ''-'') \<and> word_like_at rest 1)"
  shows "hyphen_group segments i grp = (i + 2 * length ws, grp @ ws)"
  using assms
proof (induction ws arbitrary: i grp)
  case Nil
  then have d: "drop (Suc i) segments = rest" by (simp add: hyphen_chain_def)
  have "segment_is segments (i + 1) (js ''-'') = segment_is rest 0 (js ''-'')"
    using segment_is_drop [of "Suc i" segments 0] d by simp
  moreover have "word_like_at segments (i + 2) = word_like_at rest 1"
    using word_like_at_drop [of "Suc i" segments 1] d by simp
  ultimately show ?case
    using Nil.prems(2) by (auto simp add: hyphen_group.simps [of segments i grp])
next
  case (Cons w ws)
  let ?h = "not_word_like (js ''-'')"
  from Cons.prems(1) have d: "drop (Suc i) segments = ?h # word_like w # hyphen_chain ws @ rest"
    by (simp add: hyphen_chain_def)
  have a1: "segment_at segments (i + 1) = Some ?h"
    using segment_at_drop [of "Suc i" segments 0] d by (simp add: segment_at_def)
  have a2: "segment_at segments (i + 2) = Some (word_like w)"
    using segment_at_drop [of "Suc i" segments 1] d by (simp add: segment_at_def)
  have d2: "drop (Suc (i + 2)) segments = hyphen_chain ws @ rest"
  proof -
    have "drop 2 (drop (Suc i) segments) = hyphen_chain ws @ rest" by (simp add: d)
    then show ?thesis by (simp add: add.commute)
  qed
  from a2 have nth: "segments ! (i + 2) = word_like w" by (auto dest: segment_at_Some)
  have c: "segment_is segments (i + 1) (js ''-'') \<and> word_like_at segments (i + 2)"
    using a1 a2 by (simp add: segment_is_def word_like_at_def word_like_def not_word_like_def)
  have "hyphen_group segments i grp = hyphen_group segments (i + 2) (grp @ [w])"
    using c nth by (simp add: hyphen_group.simps [of segments i grp] word_like_def)
  also have "\<dots> = (i + 2 + 2 * length ws, (grp @ [w]) @ ws)"
    by (rule Cons.IH [OF d2 Cons.prems(2)])
  finally show ?case by simp
qed

lemmas segment_defs = word_like_def not_word_like_def segment_at_def segment_is_def
  word_like_at_def

lemmas number_defs = number_is_nan_def trim_def is_white_space_def str_decimal_literal_def
  str_unsigned_decimal_literal_def non_decimal_integer_literal_def exponent_part_opt_def
  signed_integer_def is_digit_def is_hex_digit_def

lemmas outer_eval = outer.simps hyphen_group.simps segment_defs number_defs
  max_term_length_def match_at_def tags_def js_def

lemma join_hyphen_Cons: "ws \<noteq> [] \<Longrightarrow> join sep (w # ws) = w @ sep @ join sep ws"
  by (cases ws) simp_all

lemma outer_hyphen_chain:
  assumes segs: "segments = pre @ word_like w0 # hyphen_chain ws @ rest"
    and ne: "ws \<noteq> []"
    and stop: "\<not> (segment_is rest 0 (js ''-'') \<and> word_like_at rest 1)"
    and no_term: "find_term terms segments (length pre) (max_term_length terms - 1) = None"
  shows "outer terms segments (length pre) =
         join (js ''-'') (w0 # ws) # outer terms segments (length pre + 1 + 2 * length ws)"
proof -
  let ?i = "length pre"
  from segs have len: "\<not> length segments \<le> ?i" by simp
  from segs have at_i: "segments ! ?i = word_like w0" by simp
  from segs have d: "drop (Suc ?i) segments = hyphen_chain ws @ rest" by simp
  from ne obtain w ws' where ws: "ws = w # ws'" by (cases ws) auto
  have next_seg: "segment_at segments (?i + 1) = Some (not_word_like (js ''-''))"
    using segment_at_drop [of "Suc ?i" segments 0] d
    by (simp add: ws hyphen_chain_def segment_at_def)
  have not_tag: "\<not> word_like_at segments (?i + 1)"
    using next_seg by (simp add: word_like_at_def not_word_like_def)
  have hy: "segment_is segments (?i + 1) (js ''-'')"
    using next_seg by (simp add: segment_is_def not_word_like_def)
  have grp: "hyphen_group segments ?i [w0] = (?i + 2 * length ws, [w0] @ ws)"
    by (rule hyphen_group_chain [OF d stop])
  show ?thesis
    using len no_term at_i not_tag hy grp
    by (simp add: outer.simps [of terms segments ?i] word_like_def)
qed

text \<open>
  C8. A word-like segment followed by a maximal alternating chain of \<open>-\<close> and
  word-like segments, at a cursor where no term matches, is one token joined with
  \<open>-\<close>, and the scan goes on after the last segment of the chain; the segments of
  \<open>state-of-the-art\<close> give that single token.
\<close>

theorem hyphen_compound:
  "(segments = pre @ word_like w0 # hyphen_chain ws @ rest \<and> ws \<noteq> [] \<and>
    \<not> (segment_is rest 0 (js ''-'') \<and> word_like_at rest 1) \<and>
    find_term terms segments (length pre) (max_term_length terms - 1) = None \<longrightarrow>
    outer terms segments (length pre) =
      join (js ''-'') (w0 # ws) # outer terms segments (length pre + 1 + 2 * length ws)) \<and>
   (find_term terms
      [word_like (js ''state''), not_word_like (js ''-''), word_like (js ''of''),
       not_word_like (js ''-''), word_like (js ''the''), not_word_like (js ''-''),
       word_like (js ''art'')] 0 (max_term_length terms - 1) = None \<longrightarrow>
    outer terms
      [word_like (js ''state''), not_word_like (js ''-''), word_like (js ''of''),
       not_word_like (js ''-''), word_like (js ''the''), not_word_like (js ''-''),
       word_like (js ''art'')] 0 = [js ''state-of-the-art''])"
proof (intro conjI impI)
  assume "segments = pre @ word_like w0 # hyphen_chain ws @ rest \<and> ws \<noteq> [] \<and>
    \<not> (segment_is rest 0 (js ''-'') \<and> word_like_at rest 1) \<and>
    find_term terms segments (length pre) (max_term_length terms - 1) = None"
  then show "outer terms segments (length pre) =
      join (js ''-'') (w0 # ws) # outer terms segments (length pre + 1 + 2 * length ws)"
    by (intro outer_hyphen_chain) auto
next
  let ?segs = "[word_like (js ''state''), not_word_like (js ''-''), word_like (js ''of''),
       not_word_like (js ''-''), word_like (js ''the''), not_word_like (js ''-''),
       word_like (js ''art'')]"
  assume no_term: "find_term terms ?segs 0 (max_term_length terms - 1) = None"
  have shape: "?segs = [] @ word_like (js ''state'') #
      hyphen_chain [js ''of'', js ''the'', js ''art''] @ []"
    by (simp add: hyphen_chain_def)
  have stop: "\<not> (segment_is [] 0 (js ''-'') \<and> word_like_at [] 1)"
    by (simp add: segment_is_def segment_at_def)
  have "outer terms ?segs (length ([] :: segment_data list)) =
      join (js ''-'') [js ''state'', js ''of'', js ''the'', js ''art''] #
      outer terms ?segs (length ([] :: segment_data list) + 1 + 2 * length [js ''of'', js ''the'', js ''art''])"
    using no_term by (intro outer_hyphen_chain [OF shape _ stop]) simp_all
  moreover have "outer terms ?segs 7 = []" by (simp add: outer.simps [of terms ?segs 7])
  moreover have "join (js ''-'') [js ''state'', js ''of'', js ''the'', js ''art''] =
      js ''state-of-the-art''" by (simp add: js_def)
  ultimately show "outer terms ?segs 0 = [js ''state-of-the-art'']" by simp
qed

theorem hyphen_compound_witness:
  "outer [[js ''stop'', js '' '', js ''loss'']]
     [word_like (js ''to''), not_word_like (js '' ''), word_like (js ''e''),
      not_word_like (js ''-''), word_like (js ''mail''), not_word_like (js ''-''),
      not_word_like (js '' '')] 2 =
     [js ''e-mail''] \<and>
   outer [[js ''stop'', js '' '', js ''loss'']]
      [word_like (js ''state''), not_word_like (js ''-''), word_like (js ''of''),
       not_word_like (js ''-''), word_like (js ''the''), not_word_like (js ''-''),
       word_like (js ''art'')] 0 = [js ''state-of-the-art'']"
proof -
  let ?terms = "[[js ''stop'', js '' '', js ''loss'']]"
  let ?pre = "[word_like (js ''to''), not_word_like (js '' '')]"
  let ?rest = "[not_word_like (js ''-''), not_word_like (js '' '')]"
  let ?segs = "[word_like (js ''to''), not_word_like (js '' ''), word_like (js ''e''),
      not_word_like (js ''-''), word_like (js ''mail''), not_word_like (js ''-''),
      not_word_like (js '' '')]"
  let ?state = "[word_like (js ''state''), not_word_like (js ''-''), word_like (js ''of''),
       not_word_like (js ''-''), word_like (js ''the''), not_word_like (js ''-''),
       word_like (js ''art'')]"
  have shape: "?segs = ?pre @ word_like (js ''e'') # hyphen_chain [js ''mail''] @ ?rest"
    by (simp add: hyphen_chain_def)
  have stop: "\<not> (segment_is ?rest 0 (js ''-'') \<and> word_like_at ?rest 1)"
    by (simp add: segment_defs)
  have no_term: "find_term ?terms ?segs (length ?pre) (max_term_length ?terms - 1) = None"
    by (simp add: max_term_length_def match_at_def segment_defs js_def numeral_2_eq_2)
  have no_term': "find_term ?terms ?state 0 (max_term_length ?terms - 1) = None"
    by (simp add: max_term_length_def match_at_def segment_defs js_def numeral_2_eq_2)
  have tail: "outer ?terms ?segs 5 = []"
    by (simp add: outer_eval numeral_2_eq_2)
  have idx: "length ?pre = 2" "2 + 1 + 2 * length [js ''mail''] = (5::nat)" by simp_all
  from hyphen_compound [of ?segs ?pre "js ''e''" "[js ''mail'']" ?rest ?terms]
    shape stop no_term
  have "outer ?terms ?segs (length ?pre) =
      join (js ''-'') [js ''e'', js ''mail''] #
      outer ?terms ?segs (length ?pre + 1 + 2 * length [js ''mail''])"
    by blast
  then have "outer ?terms ?segs 2 =
      join (js ''-'') [js ''e'', js ''mail''] # outer ?terms ?segs 5"
    unfolding idx .
  with tail have a: "outer ?terms ?segs 2 = [js ''e-mail'']" by (simp add: js_def)
  from hyphen_compound [of ?segs ?pre "js ''e''" "[js ''mail'']" ?rest ?terms] no_term'
  have b: "outer ?terms ?state 0 = [js ''state-of-the-art'']" by blast
  from a b show ?thesis by simp
qed

text \<open>
  What the scan does after a term: the window is \<open>j + 1\<close> segments, \<open>i += j + 1\<close>
  puts the cursor on the segment after it, and the \<open>i++\<close> that \<open>continue outer\<close>
  runs steps over that segment.
\<close>

lemma outer_term_match:
  assumes "i < length segments"
    and "find_term terms segments i (max_term_length terms - 1) = Some (m, j)"
  shows "outer terms segments i = join [] m # outer terms segments (i + j + 2)"
  using assms by (simp add: outer.simps [of terms segments i])

section \<open>Expansion of the ignore list\<close>

lemma word_forms_in_ignore_list:
  assumes "base \<in> set (map trim (split_newline (ignore_list_file e)))"
  shows "set (word_forms e base) \<subseteq> ignore_list e"
  using assms by (auto simp: ignore_list_def)

lemma ignore_list_run:
  assumes "ignore_list_file e = js ''run''"
  shows "ignore_list e = set (word_forms e (js ''run''))"
  using assms by (simp add: ignore_list_def js_def trim_def is_white_space_def)

text \<open>
  The base word \<open>run\<close> in the example environment: \<open>running\<close> is not one of its
  forms, since \<open>word + "ing"\<close> and \<open>word.slice(0, -1) + "ing"\<close> double no consonant.
\<close>

theorem ignore_list_running_counterexample:
  "ignore_list_file example_env = js ''run'' \<and> js ''running'' \<notin> ignore_list example_env"
proof -
  have f: "ignore_list_file example_env = js ''run''" by (simp add: example_env_def)
  have "js ''running'' \<notin> set (word_forms example_env (js ''run''))"
    by (simp add: word_forms_def example_env_def js_def)
  with f show ?thesis by (simp add: ignore_list_run)
qed

text \<open>
  C6, amended. Every trimmed line \<open>base\<close> of the ignore-list file puts six strings
  into the set: \<open>base\<close>, \<open>pluralize(base, 0)\<close>, \<open>base + "ing"\<close>, \<open>base\<close> without
  its last code unit \<open>+ "ing"\<close>, \<open>base + "d"\<close> and \<open>base + "ed"\<close>. For the file
  \<open>run\<close> the set is \<open>run\<close>, its plural, \<open>runing\<close>, \<open>ruing\<close>, \<open>rund\<close> and \<open>runed\<close>.
\<close>

theorem ignore_list_expansion:
  "(base \<in> set (map trim (split_newline (ignore_list_file e))) \<longrightarrow>
      {base, pluralize e base 0, base @ js ''ing'', butlast base @ js ''ing'',
       base @ js ''d'', base @ js ''ed''} \<subseteq> ignore_list e) \<and>
   (ignore_list_file e = js ''run'' \<longrightarrow>
      ignore_list e =
        {js ''run'', pluralize e (js ''run'') 0, js ''runing'', js ''ruing'', js ''rund'',
         js ''runed''})"
proof (intro conjI impI)
  assume "base \<in> set (map trim (split_newline (ignore_list_file e)))"
  from word_forms_in_ignore_list [OF this]
  show "{base, pluralize e base 0, base @ js ''ing'', butlast base @ js ''ing'',
       base @ js ''d'', base @ js ''ed''} \<subseteq> ignore_list e"
    by (simp add: word_forms_def)
next
  assume "ignore_list_file e = js ''run''"
  from ignore_list_run [OF this]
  show "ignore_list e =
        {js ''run'', pluralize e (js ''run'') 0, js ''runing'', js ''ruing'', js ''rund'',
         js ''runed''}"
    by (simp add: word_forms_def js_def)
qed

theorem ignore_list_expansion_witness:
  "ignore_list example_env =
     {js ''run'', js ''runs'', js ''runing'', js ''ruing'', js ''rund'', js ''runed''} \<and>
   {js ''run'', js ''runs'', js ''runing'', js ''ruing'', js ''rund'', js ''runed''}
     \<subseteq> ignore_list example_env"
proof -
  have f: "ignore_list_file example_env = js ''run''" by (simp add: example_env_def)
  have b: "js ''run'' \<in> set (map trim (split_newline (ignore_list_file example_env)))"
    by (simp add: f js_def trim_def is_white_space_def)
  have pl: "pluralize example_env (js ''run'') 0 = js ''runs''"
    by (simp add: example_env_def js_def)
  from ignore_list_expansion [of "js ''run''" example_env] f b
  have "{js ''run'', pluralize example_env (js ''run'') 0, js ''run'' @ js ''ing'',
         butlast (js ''run'') @ js ''ing'', js ''run'' @ js ''d'', js ''run'' @ js ''ed''}
          \<subseteq> ignore_list example_env"
    and "ignore_list example_env =
        {js ''run'', pluralize example_env (js ''run'') 0, js ''runing'', js ''ruing'',
         js ''rund'', js ''runed''}"
    by blast+
  then show ?thesis using pl by (simp add: js_def)
qed

section \<open>Canonicalization\<close>

lemma set_set_values: "set (set_values xs) = set xs"
  by (induction xs rule: set_values.induct) auto

lemma distinct_set_values: "distinct (set_values xs)"
  by (induction xs rule: set_values.induct) (auto simp: set_set_values)

lemma set_values_distinct: "distinct xs \<Longrightarrow> set_values xs = xs"
proof (induction xs)
  case Nil
  then show ?case by simp
next
  case (Cons x xs)
  then have "filter (\<lambda>y. y \<noteq> x) xs = xs" by (auto intro: filter_True)
  with Cons show ?case by simp
qed

section \<open>The filter\<close>

lemma code_points_ascii: "list_all (\<lambda>c. c \<le> 0x7F) w \<Longrightarrow> code_points w = w"
  by (induction w rule: code_points.induct) auto

lemma ascii_classes: "c \<le> 0x7F \<Longrightarrow> \<not> han_class e c \<and> \<not> hiragana_class c"
  by (simp add: han_class_def hiragana_class_def)

lemma ascii_no_match:
  assumes "match_ALL_ASCII w"
  shows "\<not> match_HAN_REGEX e w" and "\<not> match_HIRAGANA_REGEX w"
proof -
  from assms have a: "list_all (\<lambda>c. c \<le> 0x7F) w" by (simp add: match_ALL_ASCII_def)
  then have "\<forall>c \<in> set w. \<not> han_class e c \<and> \<not> hiragana_class c"
    by (auto simp: list_all_iff dest: ascii_classes)
  then show "\<not> match_HAN_REGEX e w" and "\<not> match_HIRAGANA_REGEX w"
    by (auto simp: match_HAN_REGEX_def match_HIRAGANA_REGEX_def code_points_ascii [OF a]
        list_ex_iff)
qed

lemma keep_word_ascii:
  assumes "keep_word e w"
  shows "match_ALL_ASCII w" and "2 < length w"
proof -
  from assms show a: "match_ALL_ASCII w" by (simp add: keep_word_def)
  from assms ascii_no_match [OF a] show "2 < length w" by (simp add: keep_word_def)
qed

lemma keep_word_plain:
  assumes "match_ALL_ASCII w"
  shows "keep_word e w \<longleftrightarrow>
     number_is_nan (remove_kmbt (replace_global (fiat_matcher (cmc_fiat_signs e)) None w)) \<and>
     2 < length w \<and> (3 * length w) div 5 < length (keep_a_to_z w) \<and> w \<notin> ignore_list e"
  using assms ascii_no_match [OF assms] by (simp add: keep_word_def)

lemma array_filter_kept:
  assumes "array_filter f xs = Inr r"
  shows "\<forall>x \<in> set r. x \<in> set xs \<and> f x = Inr True"
  using assms
proof (induction xs arbitrary: r)
  case Nil
  then show ?case by simp
next
  case (Cons x xs)
  from Cons.prems obtain b r' where fx: "f x = Inr b" and rest: "array_filter f xs = Inr r'"
    and r: "r = (if b then x # r' else r')"
    by (auto split: sum.splits)
  from Cons.IH [OF rest] fx r show ?case by auto
qed

lemma filter_predicate_True:
  assumes "filter_predicate e v = Inr True"
  shows "\<exists>w. v = Str w \<and> keep_word e w"
  using assms by (cases v) auto

lemma analyse_filtered:
  assumes "\<not> no_filter_given opts" and "analyse e raw opts = Inr r"
  shows "\<forall>v \<in> set (words r). \<exists>w. v = Str w \<and> keep_word e w"
proof -
  from assms obtain kept where
    k: "array_filter (filter_predicate e)
          (analyse_unique_words e (analyse_words e raw)) = Inr kept"
    and r: "words r = kept"
    by (auto simp: analyse_def Let_def split: sum.splits)
  from array_filter_kept [OF k] r show ?thesis
    by (auto dest: filter_predicate_True)
qed

text \<open>
  C10. With filtering on, every element of the returned \<open>words\<close> is a string of
  ASCII code units, longer than 2, with no ideograph and no kana code point, whatever
  the two flags are; and a string with an ideograph or a kana code point never passes
  the predicate, so the exemption from the length floor decides nothing.
\<close>

theorem filtered_words_ascii:
  "(\<not> no_filter_given opts \<and> analyse e raw opts = Inr r \<longrightarrow>
      (\<forall>v \<in> set (words r). \<exists>w. v = Str w \<and> w \<noteq> [] \<and> list_all (\<lambda>c. c \<le> 0x7F) w \<and>
         2 < length w \<and> \<not> match_HAN_REGEX e w \<and> \<not> match_HIRAGANA_REGEX w)) \<and>
   (match_HAN_REGEX e w \<or> match_HIRAGANA_REGEX w \<longrightarrow> \<not> keep_word e w)"
proof (intro conjI impI ballI)
  fix v
  assume "\<not> no_filter_given opts \<and> analyse e raw opts = Inr r" and "v \<in> set (words r)"
  with analyse_filtered [of opts e raw r] obtain w where v: "v = Str w" and k: "keep_word e w"
    by blast
  from keep_word_ascii [OF k] ascii_no_match(1) [of w e] ascii_no_match(2) [of w] v
  show "\<exists>w. v = Str w \<and> w \<noteq> [] \<and> list_all (\<lambda>c. c \<le> 0x7F) w \<and>
         2 < length w \<and> \<not> match_HAN_REGEX e w \<and> \<not> match_HIRAGANA_REGEX w"
    by (auto simp: match_ALL_ASCII_def)
next
  assume "match_HAN_REGEX e w \<or> match_HIRAGANA_REGEX w"
  with ascii_no_match(1) [of w e] ascii_no_match(2) [of w] keep_word_ascii(1) [of e w] show "\<not> keep_word e w" by blast
qed


section \<open>Scenario A\<close>

lemmas matcher_defs = tco_matcher_def strip_prefix_def starts_with_def replaces_matcher_def
  aliases_matcher_def possessive_matcher_def fiat_matcher_def alternatives_def table_value_def
  word_boundary_def is_word_char_def is_digit_def is_url_char_def is_line_terminator_def

lemma lower_A: "toLowerCase e (js ''BTC stop loss now'') = js ''btc stop loss now''"
  by (simp add: toLowerCase_def js_def to_lower_ascii_def)

lemma lower_stop_loss: "toLowerCase e (js ''stop loss'') = js ''stop loss''"
  by (simp add: toLowerCase_def js_def to_lower_ascii_def)

lemma tco_A:
  "replace_global tco_matcher None (js ''btc stop loss now'') = js ''btc stop loss now''"
  by (simp add: matcher_defs js_def)

lemma aliases_A:
  "replace_global (aliases_matcher [(js ''btc'', js ''bitcoin'')]) None
     (js ''btc stop loss now'') = js ''bitcoin stop loss now''"
  by (simp add: matcher_defs js_def)

lemma possessive_A:
  "replace_global possessive_matcher None (js ''bitcoin stop loss now'') =
     js ''bitcoin stop loss now''"
  by (simp add: matcher_defs js_def)

lemma outer_A:
  "outer [[js ''stop'', js '' '', js ''loss'']]
     [word_like (js ''bitcoin''), not_word_like (js '' ''), word_like (js ''stop''),
      not_word_like (js '' ''), word_like (js ''loss''), not_word_like (js '' ''),
      word_like (js ''now'')] 0 = [js ''bitcoin'', js ''stop loss'', js ''now'']"
  by (simp add: outer_eval numeral_2_eq_2)

lemma unique_A:
  "set_values (map (alias_of [(js ''btc'', js ''bitcoin'')])
     [js ''bitcoin'', js ''stop loss'', js ''now'']) =
   [Str (js ''bitcoin''), Str (js ''stop loss''), Str (js ''now'')]"
  by (simp add: alias_of_def object_prototype_properties_def js_def)

lemma plain_A:
  "match_ALL_ASCII (js ''bitcoin'')" "match_ALL_ASCII (js ''stop loss'')"
  "match_ALL_ASCII (js ''now'')"
  by (simp_all add: match_ALL_ASCII_def js_def)

lemma numbers_A:
  "number_is_nan (remove_kmbt (js ''bitcoin''))" "number_is_nan (remove_kmbt (js ''stop loss''))"
  "number_is_nan (remove_kmbt (js ''now''))"
  by (simp_all add: remove_kmbt_def number_defs js_def)

lemma letters_A:
  "(3 * length (js ''bitcoin'')) div 5 < length (keep_a_to_z (js ''bitcoin''))"
  "(3 * length (js ''stop loss'')) div 5 < length (keep_a_to_z (js ''stop loss''))"
  "(3 * length (js ''now'')) div 5 < length (keep_a_to_z (js ''now''))"
  "2 < length (js ''bitcoin'')" "2 < length (js ''stop loss'')" "2 < length (js ''now'')"
  by (simp_all add: keep_a_to_z_def js_def)

lemma scenario_A_run:
  assumes terms: "config_terms e = [js ''stop loss'']"
    and aliases: "config_aliases e = [(js ''btc'', js ''bitcoin'')]"
    and replaces: "replace_global (replaces_matcher (config_replaces e)) None
        (js ''btc stop loss now'') = js ''btc stop loss now''"
    and t2s: "traditional_to_simplfiied e (js ''bitcoin stop loss now'') =
        js ''bitcoin stop loss now''"
    and seg_term: "segmenter e (js ''stop loss'') =
        [word_like (js ''stop''), not_word_like (js '' ''), word_like (js ''loss'')]"
    and seg: "segmenter e (js ''bitcoin stop loss now'') =
        [word_like (js ''bitcoin''), not_word_like (js '' ''), word_like (js ''stop''),
         not_word_like (js '' ''), word_like (js ''loss''), not_word_like (js '' ''),
         word_like (js ''now'')]"
    and fiat: "\<forall>w \<in> {js ''bitcoin'', js ''stop loss'', js ''now''}.
        replace_global (fiat_matcher (cmc_fiat_signs e)) None w = w"
    and ignore: "\<forall>w \<in> {js ''bitcoin'', js ''stop loss'', js ''now''}. w \<notin> ignore_list e"
    and pct: "0 \<le> config_hanzi_percentage e"
  shows "analyse_normalized e (js ''BTC stop loss now'') = js ''bitcoin stop loss now''"
    and "analyse_words e (js ''BTC stop loss now'') =
      [js ''bitcoin'', js ''stop loss'', js ''now'']"
    and "analyse_unique_words e [js ''bitcoin'', js ''stop loss'', js ''now''] =
      [Str (js ''bitcoin''), Str (js ''stop loss''), Str (js ''now'')]"
    and "analyse e (js ''BTC stop loss now'') None =
      Inr \<lparr>is_chinese = False,
           words = [Str (js ''bitcoin''), Str (js ''stop loss''), Str (js ''now'')]\<rparr>"
proof -
  show n: "analyse_normalized e (js ''BTC stop loss now'') = js ''bitcoin stop loss now''"
    by (simp add: analyse_normalized_def lower_A tco_A replaces aliases aliases_A possessive_A t2s)
  have t: "analyse_terms e = [[js ''stop'', js '' '', js ''loss'']]"
    by (simp add: analyse_terms_def terms lower_stop_loss seg_term word_like_def
        not_word_like_def)
  show w: "analyse_words e (js ''BTC stop loss now'') =
      [js ''bitcoin'', js ''stop loss'', js ''now'']"
    by (simp add: analyse_words_def n t seg outer_A)
  show u: "analyse_unique_words e [js ''bitcoin'', js ''stop loss'', js ''now''] =
      [Str (js ''bitcoin''), Str (js ''stop loss''), Str (js ''now'')]"
    unfolding analyse_unique_words_def aliases by (rule unique_A)
  have "filter (match_HAN_REGEX e) [js ''bitcoin'', js ''stop loss'', js ''now''] = []"
    using plain_A by (simp add: ascii_no_match)
  then have c: "\<not> analyse_is_chinese e [js ''bitcoin'', js ''stop loss'', js ''now'']"
    using hanzi_exceeds_none [OF pct] by (simp add: analyse_is_chinese_def)
  have k: "keep_word e (js ''bitcoin'')" "keep_word e (js ''stop loss'')"
    "keep_word e (js ''now'')"
    using fiat ignore by (simp_all add: keep_word_plain plain_A numbers_A letters_A)
  show "analyse e (js ''BTC stop loss now'') None =
      Inr \<lparr>is_chinese = False,
           words = [Str (js ''bitcoin''), Str (js ''stop loss''), Str (js ''now'')]\<rparr>"
    by (simp add: analyse_def no_filter_given_def w u c k)
qed

text \<open>The example environment meets the assumptions of scenario A.\<close>

lemma example_env_fields:
  "config_terms example_env = [js ''stop loss'']"
  "config_aliases example_env = [(js ''btc'', js ''bitcoin'')]"
  "config_replaces example_env = [(js ''&amp;'', js ''&'')]"
  "cmc_fiat_signs example_env = [js ''$'']"
  "traditional_to_simplfiied example_env s = s"
  "unicode_toLowerCase example_env s = s"
  "segmenter example_env = example_segmenter"
  "config_hanzi_percentage example_env = 1 / 2"
  "ignore_list_file example_env = js ''run''"
  "unicode_unified_ideograph example_env = unified_ideograph_15_1"
  by (simp_all add: example_env_def)

lemma example_ignore_list:
  "ignore_list example_env =
     {js ''run'', js ''runs'', js ''runing'', js ''ruing'', js ''rund'', js ''runed''}"
  by (simp add: ignore_list_run example_env_fields word_forms_def example_env_def js_def)

lemmas example_eval = example_env_fields example_segmenter_def example_segmentations_def
  matcher_defs js_def

lemma example_env_scenario_A:
  "config_terms example_env = [js ''stop loss'']"
  "config_aliases example_env = [(js ''btc'', js ''bitcoin'')]"
  "replace_global (replaces_matcher (config_replaces example_env)) None
        (js ''btc stop loss now'') = js ''btc stop loss now''"
  "traditional_to_simplfiied example_env (js ''bitcoin stop loss now'') =
        js ''bitcoin stop loss now''"
  "segmenter example_env (js ''stop loss'') =
        [word_like (js ''stop''), not_word_like (js '' ''), word_like (js ''loss'')]"
  "segmenter example_env (js ''bitcoin stop loss now'') =
        [word_like (js ''bitcoin''), not_word_like (js '' ''), word_like (js ''stop''),
         not_word_like (js '' ''), word_like (js ''loss''), not_word_like (js '' ''),
         word_like (js ''now'')]"
  "\<forall>w \<in> {js ''bitcoin'', js ''stop loss'', js ''now''}.
        replace_global (fiat_matcher (cmc_fiat_signs example_env)) None w = w"
  "\<forall>w \<in> {js ''bitcoin'', js ''stop loss'', js ''now''}. w \<notin> ignore_list example_env"
  "0 \<le> config_hanzi_percentage example_env"
  by (simp_all add: example_eval example_ignore_list)

lemmas example_A = scenario_A_run [OF example_env_scenario_A]

text \<open>
  In the example environment the tokens after term matching already hold \<open>bitcoin\<close>:
  \<open>aliases_regex\<close> has rewritten \<open>btc\<close> in the text before it is segmented.
\<close>

theorem scenario_A_tokens_counterexample:
  "analyse_words example_env (js ''BTC stop loss now'') \<noteq>
     [js ''btc'', js ''stop loss'', js ''now'']"
  unfolding example_A(2) by (simp add: js_def)

text \<open>
  C4, amended. With the term \<open>stop loss\<close>, the alias of \<open>btc\<close> to \<open>bitcoin\<close>, and
  collaborators that behave on this text as they do in practice (no replacement key
  and no fiat sign occurs in it, the converter keeps it, the segmenter splits it at
  the spaces, none of the three tokens is in the ignore set, the threshold is not
  negative), the input \<open>BTC stop loss now\<close> is normalized to \<open>bitcoin stop loss now\<close>,
  the tokens after term matching are \<open>bitcoin\<close>, \<open>stop loss\<close>, \<open>now\<close>,
  canonicalization leaves them as they are, all three pass the filter, and the result
  is not Chinese with exactly these words.
\<close>

theorem scenario_A:
  assumes "config_terms e = [js ''stop loss'']"
    and "config_aliases e = [(js ''btc'', js ''bitcoin'')]"
    and "replace_global (replaces_matcher (config_replaces e)) None
        (js ''btc stop loss now'') = js ''btc stop loss now''"
    and "traditional_to_simplfiied e (js ''bitcoin stop loss now'') =
        js ''bitcoin stop loss now''"
    and "segmenter e (js ''stop loss'') =
        [word_like (js ''stop''), not_word_like (js '' ''), word_like (js ''loss'')]"
    and "segmenter e (js ''bitcoin stop loss now'') =
        [word_like (js ''bitcoin''), not_word_like (js '' ''), word_like (js ''stop''),
         not_word_like (js '' ''), word_like (js ''loss''), not_word_like (js '' ''),
         word_like (js ''now'')]"
    and "\<forall>w \<in> {js ''bitcoin'', js ''stop loss'', js ''now''}.
        replace_global (fiat_matcher (cmc_fiat_signs e)) None w = w"
    and "\<forall>w \<in> {js ''bitcoin'', js ''stop loss'', js ''now''}. w \<notin> ignore_list e"
    and "0 \<le> config_hanzi_percentage e"
  shows "analyse_normalized e (js ''BTC stop loss now'') = js ''bitcoin stop loss now'' \<and>
    analyse_words e (js ''BTC stop loss now'') = [js ''bitcoin'', js ''stop loss'', js ''now''] \<and>
    analyse_unique_words e [js ''bitcoin'', js ''stop loss'', js ''now''] =
      [Str (js ''bitcoin''), Str (js ''stop loss''), Str (js ''now'')] \<and>
    keep_word e (js ''bitcoin'') \<and> keep_word e (js ''stop loss'') \<and> keep_word e (js ''now'') \<and>
    analyse e (js ''BTC stop loss now'') None =
      Inr \<lparr>is_chinese = False,
           words = [Str (js ''bitcoin''), Str (js ''stop loss''), Str (js ''now'')]\<rparr>"
proof -
  have "keep_word e (js ''bitcoin'')" "keep_word e (js ''stop loss'')" "keep_word e (js ''now'')"
    using assms(7,8) by (simp_all add: keep_word_plain plain_A numbers_A letters_A)
  with scenario_A_run [OF assms] show ?thesis by simp
qed

theorem scenario_A_witness:
  "analyse_normalized example_env (js ''BTC stop loss now'') = js ''bitcoin stop loss now'' \<and>
   analyse_words example_env (js ''BTC stop loss now'') =
     [js ''bitcoin'', js ''stop loss'', js ''now''] \<and>
   analyse example_env (js ''BTC stop loss now'') None =
      Inr \<lparr>is_chinese = False,
           words = [Str (js ''bitcoin''), Str (js ''stop loss''), Str (js ''now'')]\<rparr>"
  using scenario_A [OF example_env_scenario_A] by simp


theorem filtered_words_ascii_witness:
  "(\<exists>w. Str (js ''bitcoin'') = Str w \<and> w \<noteq> [] \<and> list_all (\<lambda>c. c \<le> 0x7F) w \<and>
      2 < length w \<and> \<not> match_HAN_REGEX example_env w \<and> \<not> match_HIRAGANA_REGEX w) \<and>
   \<not> keep_word example_env [0x5E01]"
proof -
  let ?r = "\<lparr>is_chinese = False,
           words = [Str (js ''bitcoin''), Str (js ''stop loss''), Str (js ''now'')]\<rparr>"
  have opts: "\<not> no_filter_given None" by (simp add: no_filter_given_def)
  have han: "match_HAN_REGEX example_env [0x5E01]"
    by (simp add: match_HAN_REGEX_def han_class_def example_env_fields
        unified_ideograph_15_1_def)
  have mem: "Str (js ''bitcoin'') \<in> set (words ?r)" by simp
  from filtered_words_ascii [of None example_env "js ''BTC stop loss now''" ?r "[0x5E01]"]
    opts example_A(4) han
  have "\<forall>v \<in> set (words ?r). \<exists>w. v = Str w \<and> w \<noteq> [] \<and> list_all (\<lambda>c. c \<le> 0x7F) w \<and>
         2 < length w \<and> \<not> match_HAN_REGEX example_env w \<and> \<not> match_HIRAGANA_REGEX w"
    and "\<not> keep_word example_env [0x5E01]"
    by blast+
  with mem show ?thesis by blast
qed

section \<open>The segment after a term\<close>

text \<open>
  C1. The scan after the term \<open>stop loss\<close>: the word-like segment that follows it
  at once is not emitted, and from the text \<open>stop loss\<close> followed by U+5E01 the
  words are the term alone.
\<close>

theorem term_match_skips_next_segment:
  "outer [[js ''stop'', js '' '', js ''loss'']]
     [word_like (js ''stop''), not_word_like (js '' ''), word_like (js ''loss''),
      word_like [0x5E01]] 0 = [js ''stop loss''] \<and>
   analyse_words example_env (js ''stop loss'' @ [0x5E01]) = [js ''stop loss'']"
proof -
  have o: "outer [[js ''stop'', js '' '', js ''loss'']]
     [word_like (js ''stop''), not_word_like (js '' ''), word_like (js ''loss''),
      word_like [0x5E01]] 0 = [js ''stop loss'']"
    by (simp add: outer_eval numeral_2_eq_2)
  have n: "analyse_normalized example_env (js ''stop loss'' @ [0x5E01]) =
      js ''stop loss'' @ [0x5E01]"
    by (simp add: analyse_normalized_def toLowerCase_def example_eval)
  have t: "analyse_terms example_env = [[js ''stop'', js '' '', js ''loss'']]"
    by (simp add: analyse_terms_def lower_stop_loss example_env_scenario_A word_like_def
        not_word_like_def)
  have s: "segmenter example_env (js ''stop loss'' @ [0x5E01]) =
      [word_like (js ''stop''), not_word_like (js '' ''), word_like (js ''loss''),
       word_like [0x5E01]]"
    by (simp add: example_eval)
  have "analyse_words example_env (js ''stop loss'' @ [0x5E01]) = [js ''stop loss'']"
    unfolding analyse_words_def n t s by (rule o)
  with o show ?thesis by simp
qed

section \<open>Canonicalization applied twice\<close>

text \<open>
  With no alias value among the keys of the table (no chain), a second pass over the
  strings of a first pass can change one of them only if it is the name of a property
  that the table inherits from \<open>Object.prototype\<close>.
\<close>

lemma alias_of_unchained:
  assumes no_chain: "\<forall>(k, v) \<in> set table. v \<notin> fst ` set table"
    and own: "\<forall>(k, v) \<in> set table. v \<notin> set object_prototype_properties"
    and "alias_of table w = Str u"
  shows "alias_of table u = Str u"
proof (cases "map_of table w")
  case None
  with assms(3) have "u = w" by (auto simp: alias_of_def split: if_splits)
  with assms(3) show ?thesis by simp
next
  case (Some v)
  with assms(3) have u: "u = v" by (simp add: alias_of_def)
  from Some have mem: "(w, v) \<in> set table" by (rule map_of_SomeD)
  with no_chain have "v \<notin> fst ` set table" by auto
  then have "map_of table v = None" by (simp add: map_of_eq_None_iff)
  moreover from mem own have "v \<notin> set object_prototype_properties" by auto
  ultimately show ?thesis by (simp add: alias_of_def u)
qed

lemma unique_words_unchained:
  assumes no_chain: "\<forall>(k, v) \<in> set (config_aliases e). v \<notin> fst ` set (config_aliases e)"
    and own: "\<forall>(k, v) \<in> set (config_aliases e). v \<notin> set object_prototype_properties"
    and once: "analyse_unique_words e ws = map Str us"
  shows "analyse_unique_words e us = map Str us"
proof -
  let ?a = "alias_of (config_aliases e)"
  have "?a u = Str u" if "u \<in> set us" for u
  proof -
    from that have "Str u \<in> set (analyse_unique_words e ws)" by (simp add: once)
    then have "Str u \<in> set (map ?a ws)"
      by (simp add: analyse_unique_words_def set_set_values)
    then obtain w where "?a w = Str u" by auto
    with no_chain own show ?thesis by (rule alias_of_unchained)
  qed
  then have m: "map ?a us = map Str us" by simp
  have "distinct (map Str us)"
    using distinct_set_values [of "map ?a ws"] once by (simp add: analyse_unique_words_def)
  then show ?thesis by (simp add: analyse_unique_words_def m set_values_distinct)
qed

text \<open>
  C7. An alias table without a chain, whose one value is \<open>constructor\<close>: the text
  \<open>#ctor\<close> gives the token \<open>#ctor\<close> (the tag rule; \<open>aliases_regex\<close> finds no word
  boundary before \<open>#\<close>), one pass of canonicalization gives the string
  \<open>constructor\<close>, and a second pass over that string gives the function \<open>Object\<close>,
  found through \<open>"constructor" in config.aliases\<close>.
\<close>

theorem canonicalization_twice_inherited:
  "js ''constructor'' \<notin>
     fst ` set (config_aliases
       (example_env\<lparr>config_aliases := [(js ''#ctor'', js ''constructor'')]\<rparr>)) \<and>
   analyse_words (example_env\<lparr>config_aliases := [(js ''#ctor'', js ''constructor'')]\<rparr>)
     (js ''#ctor'') = [js ''#ctor''] \<and>
   analyse_unique_words (example_env\<lparr>config_aliases := [(js ''#ctor'', js ''constructor'')]\<rparr>)
     [js ''#ctor''] = [Str (js ''constructor'')] \<and>
   analyse_unique_words (example_env\<lparr>config_aliases := [(js ''#ctor'', js ''constructor'')]\<rparr>)
     [js ''constructor''] = [Inherited (js ''constructor'')]"
proof -
  let ?E = "example_env\<lparr>config_aliases := [(js ''#ctor'', js ''constructor'')]\<rparr>"
  have k: "js ''constructor'' \<notin> fst ` set (config_aliases ?E)"
    by (simp add: js_def)
  have n: "analyse_normalized ?E (js ''#ctor'') = js ''#ctor''"
    by (simp add: analyse_normalized_def toLowerCase_def to_lower_ascii_def example_eval)
  have t: "analyse_terms ?E = [[js ''stop'', js '' '', js ''loss'']]"
    by (simp add: analyse_terms_def lower_stop_loss example_env_scenario_A word_like_def
        not_word_like_def)
  have s: "segmenter ?E (js ''#ctor'') = [not_word_like (js ''#''), word_like (js ''ctor'')]"
    by (simp add: example_eval)
  have w: "analyse_words ?E (js ''#ctor'') = [js ''#ctor'']"
    unfolding analyse_words_def n t s by (simp add: outer_eval numeral_2_eq_2)
  have u1: "analyse_unique_words ?E [js ''#ctor''] = [Str (js ''constructor'')]"
    by (simp add: analyse_unique_words_def alias_of_def js_def)
  have u2: "analyse_unique_words ?E [js ''constructor''] = [Inherited (js ''constructor'')]"
    by (simp add: analyse_unique_words_def alias_of_def object_prototype_properties_def js_def)
  from k w u1 u2 show ?thesis by simp
qed

section \<open>A token that names an inherited property\<close>

text \<open>
  C3. The input \<open>constructor\<close> is one word-like segment; \<open>"constructor" in
  config.aliases\<close> holds through \<open>Object.prototype\<close>, the canonical form is the function
  \<open>Object\<close>, and the filter predicate throws on it.
\<close>

theorem analyse_throws_on_constructor:
  "analyse example_env (js ''constructor'') None = Inl TypeError"
proof -
  have n: "analyse_normalized example_env (js ''constructor'') = js ''constructor''"
    by (simp add: analyse_normalized_def toLowerCase_def to_lower_ascii_def example_eval)
  have t: "analyse_terms example_env = [[js ''stop'', js '' '', js ''loss'']]"
    by (simp add: analyse_terms_def lower_stop_loss example_env_scenario_A word_like_def
        not_word_like_def)
  have w: "analyse_words example_env (js ''constructor'') = [js ''constructor'']"
    unfolding analyse_words_def n t
    by (simp add: example_eval outer_eval numeral_2_eq_2)
  have u: "analyse_unique_words example_env [js ''constructor''] =
      [Inherited (js ''constructor'')]"
    by (simp add: analyse_unique_words_def example_env_fields alias_of_def
        object_prototype_properties_def js_def)
  show ?thesis
    by (simp add: analyse_def no_filter_given_def w u)
qed


section \<open>Scenario B\<close>

lemma every_equal_eq: "length t = length p \<Longrightarrow> every_equal t p \<longleftrightarrow> t = p"
  by (induction t p rule: every_equal.induct) auto

lemma find_Some_member: "find P xs = Some x \<Longrightarrow> P x \<and> x \<in> set xs"
  by (induction xs) (auto split: if_splits)

lemma match_at_Some:
  assumes "match_at terms segments i j = Some m"
  shows "m \<in> set terms \<and> sublist m (map segment segments)"
proof -
  let ?p = "map segment (take (j + 1) (drop i segments))"
  from assms have f: "find (\<lambda>term. every_equal term ?p)
      (filter (\<lambda>term. length term = length ?p) terms) = Some m"
    by (simp add: match_at_def Let_def)
  from find_Some_member [OF this]
  have "m \<in> set (filter (\<lambda>term. length term = length ?p) terms)" and "every_equal m ?p"
    by blast+
  then have m: "m \<in> set terms" and eq: "m = ?p" using every_equal_eq [of m ?p] by auto
  have "map segment segments =
      map segment (take i segments) @ ?p @ map segment (drop (j + 1) (drop i segments))"
    by (metis append_take_drop_id map_append)
  then have "sublist ?p (map segment segments)" unfolding sublist_def by blast
  with m eq show ?thesis by simp
qed

lemma find_term_no_sublist:
  assumes "\<forall>t \<in> set terms. \<not> sublist t (map segment segments)"
  shows "find_term terms segments i j = None"
proof (induction j)
  case 0
  show ?case by simp
next
  case (Suc j)
  have "match_at terms segments i (Suc j) = None"
  proof (cases "match_at terms segments i (Suc j)")
    case None
    then show ?thesis .
  next
    case (Some m)
    from match_at_Some [OF Some] assms show ?thesis by blast
  qed
  with Suc show ?case by simp
qed

lemma outer_B:
  assumes "\<And>i j. find_term terms
      [not_word_like (js ''#''), word_like (js ''btc''), not_word_like (js '' ''),
       word_like (js ''to''), not_word_like (js '' ''), word_like (js ''the''),
       not_word_like (js '' ''), word_like (js ''moon'')] i j = None"
  shows "outer terms
      [not_word_like (js ''#''), word_like (js ''btc''), not_word_like (js '' ''),
       word_like (js ''to''), not_word_like (js '' ''), word_like (js ''the''),
       not_word_like (js '' ''), word_like (js ''moon'')] 0 =
     [js ''#btc'', js ''to'', js ''the'', js ''moon'']"
  using assms
  by (simp add: outer.simps hyphen_group.simps segment_defs number_defs tags_def js_def)

lemma plain_B:
  "match_ALL_ASCII (js ''#btc'')" "match_ALL_ASCII (js ''to'')"
  "match_ALL_ASCII (js ''the'')" "match_ALL_ASCII (js ''moon'')"
  by (simp_all add: match_ALL_ASCII_def js_def)

lemma numbers_B:
  "number_is_nan (remove_kmbt (js ''#btc''))" "number_is_nan (remove_kmbt (js ''the''))"
  "number_is_nan (remove_kmbt (js ''moon''))"
  by (simp_all add: remove_kmbt_def number_defs js_def)

lemma letters_B:
  "(3 * length (js ''#btc'')) div 5 < length (keep_a_to_z (js ''#btc''))"
  "(3 * length (js ''the'')) div 5 < length (keep_a_to_z (js ''the''))"
  "(3 * length (js ''moon'')) div 5 < length (keep_a_to_z (js ''moon''))"
  "2 < length (js ''#btc'')" "2 < length (js ''the'')" "2 < length (js ''moon'')"
  "\<not> 2 < length (js ''to'')"
  by (simp_all add: keep_a_to_z_def js_def)

lemma scenario_B_run:
  assumes norm: "analyse_normalized e (js ''#BTC to the moon'') = js ''#btc to the moon''"
    and segs: "segmenter e (js ''#btc to the moon'') =
      [not_word_like (js ''#''), word_like (js ''btc''), not_word_like (js '' ''),
       word_like (js ''to''), not_word_like (js '' ''), word_like (js ''the''),
       not_word_like (js '' ''), word_like (js ''moon'')]"
    and no_sub: "\<forall>t \<in> set (analyse_terms e). \<not> sublist t
      [js ''#'', js ''btc'', js '' '', js ''to'', js '' '', js ''the'', js '' '', js ''moon'']"
    and al: "\<forall>w \<in> {js ''#btc'', js ''to'', js ''the'', js ''moon''}.
      alias_of (config_aliases e) w = Str w"
    and fiat: "\<forall>w \<in> {js ''#btc'', js ''the'', js ''moon''}.
      replace_global (fiat_matcher (cmc_fiat_signs e)) None w = w"
    and ignore: "js ''#btc'' \<notin> ignore_list e" "js ''moon'' \<notin> ignore_list e"
  shows "analyse_words e (js ''#BTC to the moon'') = [js ''#btc'', js ''to'', js ''the'', js ''moon'']"
    and "\<not> keep_word e (js ''to'')"
    and "keep_word e (js ''the'') \<longleftrightarrow> js ''the'' \<notin> ignore_list e"
    and "\<exists>r. analyse e (js ''#BTC to the moon'') None = Inr r \<and>
      words r =
        (if js ''the'' \<in> ignore_list e then [Str (js ''#btc''), Str (js ''moon'')]
         else [Str (js ''#btc''), Str (js ''the''), Str (js ''moon'')])"
proof -
  let ?segs = "[not_word_like (js ''#''), word_like (js ''btc''), not_word_like (js '' ''),
       word_like (js ''to''), not_word_like (js '' ''), word_like (js ''the''),
       not_word_like (js '' ''), word_like (js ''moon'')]"
  have texts: "map segment ?segs =
      [js ''#'', js ''btc'', js '' '', js ''to'', js '' '', js ''the'', js '' '', js ''moon'']"
    by (simp add: word_like_def not_word_like_def)
  have "\<forall>t \<in> set (analyse_terms e). \<not> sublist t (map segment ?segs)"
    unfolding texts by (rule no_sub)
  then have no_term: "find_term (analyse_terms e) ?segs i j = None" for i j
    by (rule find_term_no_sublist)
  show w: "analyse_words e (js ''#BTC to the moon'') =
      [js ''#btc'', js ''to'', js ''the'', js ''moon'']"
    unfolding analyse_words_def norm segs by (rule outer_B) (rule no_term)
  have distinct: "distinct [js ''#btc'', js ''to'', js ''the'', js ''moon'']"
    by (simp add: js_def)
  have u: "analyse_unique_words e [js ''#btc'', js ''to'', js ''the'', js ''moon''] =
      [Str (js ''#btc''), Str (js ''to''), Str (js ''the''), Str (js ''moon'')]"
  proof -
    have "map (alias_of (config_aliases e)) [js ''#btc'', js ''to'', js ''the'', js ''moon''] =
        map Str [js ''#btc'', js ''to'', js ''the'', js ''moon'']"
      using al by simp
    moreover have "distinct (map Str [js ''#btc'', js ''to'', js ''the'', js ''moon''])"
      using distinct by (simp only: distinct_map) (simp add: inj_on_def)
    ultimately show ?thesis
      by (simp only: analyse_unique_words_def set_values_distinct) simp
  qed
  show k_to: "\<not> keep_word e (js ''to'')"
    by (simp add: keep_word_plain plain_B letters_B)
  show k_the: "keep_word e (js ''the'') \<longleftrightarrow> js ''the'' \<notin> ignore_list e"
    using fiat by (simp add: keep_word_plain plain_B numbers_B letters_B)
  have k: "keep_word e (js ''#btc'')" "keep_word e (js ''moon'')"
    using fiat ignore by (simp_all add: keep_word_plain plain_B numbers_B letters_B)
  show "\<exists>r. analyse e (js ''#BTC to the moon'') None = Inr r \<and>
      words r =
        (if js ''the'' \<in> ignore_list e then [Str (js ''#btc''), Str (js ''moon'')]
         else [Str (js ''#btc''), Str (js ''the''), Str (js ''moon'')])"
    by (simp add: analyse_def no_filter_given_def w u k k_to k_the)
qed


text \<open>
  The example environment, with an alias table that does not touch the text and an
  ignore list with the base word \<open>run\<close> only: \<open>the\<close> has three code units and stays.
\<close>

lemma example_env_scenario_B:
  fixes E :: env
  assumes "E = example_env\<lparr>config_aliases := [(js ''eth'', js ''ethereum'')],
                           ignore_list_file := file\<rparr>"
  shows "analyse_normalized E (js ''#BTC to the moon'') = js ''#btc to the moon''"
    and "segmenter E (js ''#btc to the moon'') =
      [not_word_like (js ''#''), word_like (js ''btc''), not_word_like (js '' ''),
       word_like (js ''to''), not_word_like (js '' ''), word_like (js ''the''),
       not_word_like (js '' ''), word_like (js ''moon'')]"
    and "\<forall>t \<in> set (analyse_terms E). \<not> sublist t
      [js ''#'', js ''btc'', js '' '', js ''to'', js '' '', js ''the'', js '' '', js ''moon'']"
    and "\<forall>w \<in> {js ''#btc'', js ''to'', js ''the'', js ''moon''}.
      alias_of (config_aliases E) w = Str w"
    and "\<forall>w \<in> {js ''#btc'', js ''the'', js ''moon''}.
      replace_global (fiat_matcher (cmc_fiat_signs E)) None w = w"
proof -
  show "analyse_normalized E (js ''#BTC to the moon'') = js ''#btc to the moon''"
    by (simp add: assms analyse_normalized_def toLowerCase_def to_lower_ascii_def example_eval)
  show "segmenter E (js ''#btc to the moon'') =
      [not_word_like (js ''#''), word_like (js ''btc''), not_word_like (js '' ''),
       word_like (js ''to''), not_word_like (js '' ''), word_like (js ''the''),
       not_word_like (js '' ''), word_like (js ''moon'')]"
    by (simp add: assms example_eval)
  have t: "analyse_terms E = [[js ''stop'', js '' '', js ''loss'']]"
    by (simp add: assms analyse_terms_def lower_stop_loss example_env_scenario_A
        word_like_def not_word_like_def)
  show "\<forall>t \<in> set (analyse_terms E). \<not> sublist t
      [js ''#'', js ''btc'', js '' '', js ''to'', js '' '', js ''the'', js '' '', js ''moon'']"
    unfolding t by (simp add: sublist_code prefix_code js_def)
  show "\<forall>w \<in> {js ''#btc'', js ''to'', js ''the'', js ''moon''}.
      alias_of (config_aliases E) w = Str w"
    by (simp add: assms alias_of_def object_prototype_properties_def js_def)
  show "\<forall>w \<in> {js ''#btc'', js ''the'', js ''moon''}.
      replace_global (fiat_matcher (cmc_fiat_signs E)) None w = w"
    by (simp add: assms example_eval)
qed

theorem scenario_B_the_counterexample:
  "js ''#btc'' \<notin> ignore_list (example_env\<lparr>config_aliases := [(js ''eth'', js ''ethereum'')]\<rparr>) \<and>
   js ''moon'' \<notin> ignore_list (example_env\<lparr>config_aliases := [(js ''eth'', js ''ethereum'')]\<rparr>) \<and>
   2 < length (js ''the'') \<and>
   analyse (example_env\<lparr>config_aliases := [(js ''eth'', js ''ethereum'')]\<rparr>)
     (js ''#BTC to the moon'') None =
     Inr \<lparr>is_chinese = False,
          words = [Str (js ''#btc''), Str (js ''the''), Str (js ''moon'')]\<rparr>"
proof -
  let ?E = "example_env\<lparr>config_aliases := [(js ''eth'', js ''ethereum'')]\<rparr>"
  have E: "?E = example_env\<lparr>config_aliases := [(js ''eth'', js ''ethereum'')],
                           ignore_list_file := js ''run''\<rparr>"
    by (simp add: example_env_def)
  have ig: "ignore_list ?E = ignore_list example_env"
    by (simp add: ignore_list_def word_forms_def)
  have i1: "js ''#btc'' \<notin> ignore_list ?E" and i2: "js ''moon'' \<notin> ignore_list ?E"
    and i3: "js ''the'' \<notin> ignore_list ?E"
    unfolding ig example_ignore_list by (simp_all add: js_def)
  note run = scenario_B_run [OF example_env_scenario_B [OF E] i1 i2]
  have w: "analyse_words ?E (js ''#BTC to the moon'') =
      [js ''#btc'', js ''to'', js ''the'', js ''moon'']" by (rule run(1))
  have "0 \<le> config_hanzi_percentage ?E" by (simp add: example_env_fields)
  from hanzi_exceeds_none [OF this]
  have "\<not> analyse_is_chinese ?E [js ''#btc'', js ''to'', js ''the'', js ''moon'']"
    using plain_B by (simp add: analyse_is_chinese_def ascii_no_match)
  moreover from run(4) i3 obtain r where
    "analyse ?E (js ''#BTC to the moon'') None = Inr r"
    "words r = [Str (js ''#btc''), Str (js ''the''), Str (js ''moon'')]" by auto
  moreover from this(1) have "is_chinese r =
      analyse_is_chinese ?E (analyse_words ?E (js ''#BTC to the moon''))"
    by (auto simp: analyse_def Let_def split: if_splits sum.splits)
  ultimately have "analyse ?E (js ''#BTC to the moon'') None =
     Inr \<lparr>is_chinese = False,
          words = [Str (js ''#btc''), Str (js ''the''), Str (js ''moon'')]\<rparr>"
    by (simp add: w)
  with i1 i2 show ?thesis by (simp add: letters_B)
qed

text \<open>
  C2, amended. For the input \<open>#BTC to the moon\<close>, normalized to \<open>#btc to the moon\<close>
  and segmented at the spaces and after \<open>#\<close>, with no configured term among the
  segments, no alias for the tokens and no fiat sign in them, and \<open>#btc\<close> and \<open>moon\<close>
  outside the ignore set: the tokens are \<open>#btc\<close> (tag rule), \<open>to\<close>, \<open>the\<close>, \<open>moon\<close>;
  \<open>to\<close> has two code units and fails the length floor; \<open>the\<close> has three and is
  dropped exactly when it is in the ignore set; the words are \<open>#btc\<close>, \<open>moon\<close> if
  \<open>the\<close> is in the ignore set and \<open>#btc\<close>, \<open>the\<close>, \<open>moon\<close> otherwise.
\<close>

theorem scenario_B:
  assumes "analyse_normalized e (js ''#BTC to the moon'') = js ''#btc to the moon''"
    and "segmenter e (js ''#btc to the moon'') =
      [not_word_like (js ''#''), word_like (js ''btc''), not_word_like (js '' ''),
       word_like (js ''to''), not_word_like (js '' ''), word_like (js ''the''),
       not_word_like (js '' ''), word_like (js ''moon'')]"
    and "\<forall>t \<in> set (analyse_terms e). \<not> sublist t
      [js ''#'', js ''btc'', js '' '', js ''to'', js '' '', js ''the'', js '' '', js ''moon'']"
    and "\<forall>w \<in> {js ''#btc'', js ''to'', js ''the'', js ''moon''}.
      alias_of (config_aliases e) w = Str w"
    and "\<forall>w \<in> {js ''#btc'', js ''the'', js ''moon''}.
      replace_global (fiat_matcher (cmc_fiat_signs e)) None w = w"
    and "js ''#btc'' \<notin> ignore_list e" and "js ''moon'' \<notin> ignore_list e"
  shows "analyse_words e (js ''#BTC to the moon'') =
      [js ''#btc'', js ''to'', js ''the'', js ''moon''] \<and>
    \<not> 2 < length (js ''to'') \<and> \<not> keep_word e (js ''to'') \<and>
    2 < length (js ''the'') \<and> (keep_word e (js ''the'') \<longleftrightarrow> js ''the'' \<notin> ignore_list e) \<and>
    (\<exists>r. analyse e (js ''#BTC to the moon'') None = Inr r \<and>
      words r =
        (if js ''the'' \<in> ignore_list e then [Str (js ''#btc''), Str (js ''moon'')]
         else [Str (js ''#btc''), Str (js ''the''), Str (js ''moon'')]))"
  using scenario_B_run [OF assms] by (simp add: letters_B)

theorem scenario_B_witness:
  "analyse_words
     (example_env\<lparr>config_aliases := [(js ''eth'', js ''ethereum'')],
                  ignore_list_file := js ''the''\<rparr>)
     (js ''#BTC to the moon'') = [js ''#btc'', js ''to'', js ''the'', js ''moon''] \<and>
   (\<exists>r. analyse
      (example_env\<lparr>config_aliases := [(js ''eth'', js ''ethereum'')],
                   ignore_list_file := js ''the''\<rparr>)
      (js ''#BTC to the moon'') None = Inr r \<and>
      words r = [Str (js ''#btc''), Str (js ''moon'')])"
proof -
  let ?E = "example_env\<lparr>config_aliases := [(js ''eth'', js ''ethereum'')],
                         ignore_list_file := js ''the''\<rparr>"
  have ig: "ignore_list ?E =
      {js ''the'', js ''thes'', js ''theing'', js ''thing'', js ''thed'', js ''theed''}"
    by (simp add: ignore_list_def word_forms_def trim_def is_white_space_def example_env_def
        js_def)
  have i1: "js ''#btc'' \<notin> ignore_list ?E" and i2: "js ''moon'' \<notin> ignore_list ?E"
    and i3: "js ''the'' \<in> ignore_list ?E"
    unfolding ig by (simp_all add: js_def)
  from scenario_B [OF example_env_scenario_B [OF refl] i1 i2] i3
  show ?thesis by simp
qed


section \<open>Determinism\<close>

lemma match_global_result: "fst (match_global rx found w st) = found w"
  by (simp add: match_global_def)

lemma replace_with_result: "fst (replace_with rx m s st) = replace_global m None s"
  by (simp add: replace_with_def replace_from_def)

lemma normalized_st_result: "fst (normalized_st e raw st) = analyse_normalized e raw"
  using replace_with_result [of Replaces_regex] replace_with_result [of Aliases_regex]
  by (auto simp: normalized_st_def analyse_normalized_def split: prod.splits dest!: arg_cong [where f = fst]) 

lemma count_han_st_result:
  "fst (count_han_st e ws st) = length (filter (match_HAN_REGEX e) ws)"
proof (induction ws arbitrary: st)
  case Nil
  show ?case by simp
next
  case (Cons x xs)
  show ?case
    using match_global_result [of Han_regex "match_HAN_REGEX e" x st]
      Cons [of "snd (match_global Han_regex (match_HAN_REGEX e) x st)"]
    by (auto split: prod.splits)
qed


lemma filter_predicate_st_result: "fst (filter_predicate_st e v st) = filter_predicate e v"
proof (cases v)
  case (Inherited p)
  then show ?thesis by simp
next
  case (Str w)
  then show ?thesis
    by (simp add: keep_word_def match_global_def replace_with_def replace_from_def)
qed

lemma array_filter_st_result:
  assumes "\<And>x st. fst (f x st) = g x"
  shows "fst (array_filter_st f xs st) = array_filter g xs"
proof (induction xs arbitrary: st)
  case Nil
  show ?case by simp
next
  case (Cons x xs)
  obtain r st1 where fx: "f x st = (r, st1)" by (cases "f x st")
  with assms [of x st] have gx: "g x = r" by simp
  obtain r' st2 where rest: "array_filter_st f xs st1 = (r', st2)"
    by (cases "array_filter_st f xs st1")
  with Cons [of st1] have "array_filter g xs = r'" by simp
  with fx gx rest show ?case by (simp split: sum.splits)
qed

lemma analyse_st_result: "fst (analyse_st e raw opts st) = analyse e raw opts"
proof -
  let ?ws = "analyse_words e raw"
  let ?u = "analyse_unique_words e ?ws"
  obtain st1 where n: "normalized_st e raw st = (analyse_normalized e raw, st1)"
    using normalized_st_result [of e raw st] by (cases "normalized_st e raw st") simp
  have ws: "outer (analyse_terms e) (segmenter e (analyse_normalized e raw)) 0 = ?ws"
    by (simp add: analyse_words_def)
  obtain st2 where h: "count_han_st e ?ws st1 = (length (filter (match_HAN_REGEX e) ?ws), st2)"
    using count_han_st_result [of e ?ws st1] by (cases "count_han_st e ?ws st1") simp
  have "fst (array_filter_st (filter_predicate_st e) ?u st2) =
      array_filter (filter_predicate e) ?u"
    by (rule array_filter_st_result) (rule filter_predicate_st_result)
  then obtain st3 where k: "array_filter_st (filter_predicate_st e) ?u st2 =
      (array_filter (filter_predicate e) ?u, st3)"
    by (cases "array_filter_st (filter_predicate_st e) ?u st2") simp
  show ?thesis
    by (simp add: analyse_st_def analyse_def n ws h k analyse_is_chinese_def Let_def
        split: sum.splits)
qed

text \<open>
  C9. The result of a call does not depend on the state the module is in, so a call
  repeated with the same raw input, options and configuration returns the same
  \<open>is_chinese\<close> and \<open>words\<close> (or throws the same error), also when it runs in the state
  the first call left; and it is the value of the function \<open>analyse\<close> of these inputs.
\<close>

theorem analyse_deterministic:
  "fst (analyse_st e raw opts st) = fst (analyse_st e raw opts st') \<and>
   fst (analyse_st e raw opts (snd (analyse_st e raw opts st))) =
     fst (analyse_st e raw opts st) \<and>
   fst (analyse_st e raw opts st) = analyse e raw opts"
  by (simp add: analyse_st_result)

end
